theory Spec2Isabelle
  imports Main
begin

section \<open>Domain types (src/types/chat.ts)\<close>

datatype MessageStatus = Sending | Sent | Delivered | Read | Failed

datatype ConnectionStatus =
  Idle | Connecting | Connected | Reconnecting | Disconnected | Auth_failed

datatype UserStatus = Online | Offline | Away

text \<open>
  The text of a message is free user input and goes through \<^verbatim>\<open>String.prototype.trim\<close>,
  so it is kept as what a JavaScript string is: a list of UTF-16 code units (numbers
  below 65536). Identifiers, user names and conversation keys are ASCII and stay
  \<open>string\<close>s. \<open>ascii\<close> gives the code units of an ASCII literal.
\<close>

type_synonym codeUnit = nat

type_synonym jsText = "codeUnit list"

definition ascii :: "string \<Rightarrow> jsText" where
  "ascii s = map of_char s"

text \<open>
  \<^verbatim>\<open>ChatMessage\<close>. The optional \<^verbatim>\<open>serverId\<close> is an option; the field \<^verbatim>\<open>text\<close> is
  called \<open>msgText\<close> here. Timestamps are milliseconds (\<^verbatim>\<open>Date.now()\<close>, server clock):
  integers. The optional field \<^verbatim>\<open>id\<close> is never read from a stored message and is left out.
\<close>

record ChatMessage =
  localId :: string
  serverId :: "string option"
  chatId :: string
  senderUsername :: string
  receiverUsername :: string
  msgText :: jsText
  timestamp :: int
  status :: MessageStatus

section \<open>The reducer state and its actions (src/hooks/useChatSocket.ts)\<close>

text \<open>
  \<^verbatim>\<open>WireMessage\<close>: a message as the server sends it. The fields \<^verbatim>\<open>id, localId, chatId,
  from, to, text, timestamp\<close> carry the prefix \<open>wire\<close>.
\<close>

record WireMessage =
  wireId :: string
  wireLocalId :: "string option"
  wireChatId :: string
  wireFrom :: string
  wireTo :: string
  wireText :: jsText
  wireTimestamp :: int

text \<open>
  \<^verbatim>\<open>SocketState\<close>. A \<^verbatim>\<open>Record<string, T>\<close> is a map from its keys; conversation keys are
  taken not to collide with the property names of \<^verbatim>\<open>Object.prototype\<close>.
\<close>

record SocketState =
  connectionStatus :: ConnectionStatus
  messages :: "string \<rightharpoonup> ChatMessage list"
  typingPeers :: "string \<rightharpoonup> bool"
  peerStatuses :: "string \<rightharpoonup> UserStatus"
  dbLoaded :: bool
  error :: "string option"

text \<open>
  \<^verbatim>\<open>SocketAction\<close>. The payload of \<^verbatim>\<open>MESSAGE_UPDATED\<close> is the server's wire message (the
  handler casts it to \<^verbatim>\<open>ChatMessage\<close>); the reducer reads its \<^verbatim>\<open>id\<close>, \<^verbatim>\<open>chatId\<close> and
  \<^verbatim>\<open>timestamp\<close>.
\<close>

datatype SocketAction =
    DB_HYDRATED "ChatMessage list"
  | CONNECTING
  | CONNECTED
  | RECONNECTING
  | DISCONNECTED
  | AUTH_FAILED string
  | ERROR string
  | MESSAGE_ADDED ChatMessage
  | MESSAGE_UPDATED string WireMessage
  | MESSAGES_BULK_ADD "ChatMessage list"
  | MESSAGES_MARKED_READ string string
  | MESSAGES_READ_BY_PEER string "string list"
  | TYPING_UPDATE string bool
  | PEER_STATUS string UserStatus
  | CLEAR_CHAT string
  | MESSAGES_UPDATED_STATUS string "string list" MessageStatus

text \<open>\<^verbatim>\<open>map[cid] ?? []\<close>\<close>

definition bucket :: "(string \<rightharpoonup> ChatMessage list) \<Rightarrow> string \<Rightarrow> ChatMessage list" where
  "bucket m cid = (case m cid of None \<Rightarrow> [] | Some b \<Rightarrow> b)"

text \<open>\<^verbatim>\<open>existing.some((m) => m.localId === lid)\<close>\<close>

definition hasLocalId :: "string \<Rightarrow> ChatMessage list \<Rightarrow> bool" where
  "hasLocalId lid b = list_ex (\<lambda>m. localId m = lid) b"

text \<open>
  \<^verbatim>\<open>for (const cid in next) next[cid] = [...next[cid]].sort((a, b) => a.timestamp - b.timestamp)\<close>.
  The sort of an array is stable, as \<open>sort_key\<close> is.
\<close>

definition sortBuckets :: "(string \<rightharpoonup> ChatMessage list) \<Rightarrow> (string \<rightharpoonup> ChatMessage list)" where
  "sortBuckets m = (\<lambda>cid. map_option (sort_key timestamp) (m cid))"

text \<open>The body of the \<^verbatim>\<open>forEach\<close> of \<^verbatim>\<open>DB_HYDRATED\<close>.\<close>

definition hydrateOne ::
  "(string \<rightharpoonup> ChatMessage list) \<Rightarrow> ChatMessage \<Rightarrow> (string \<rightharpoonup> ChatMessage list)" where
  "hydrateOne nextMsgs msg =
     (let next1 = (if nextMsgs (chatId msg) = None then nextMsgs(chatId msg \<mapsto> []) else nextMsgs)
      in if find (\<lambda>m. localId m = localId msg) (bucket next1 (chatId msg)) = None
         then next1(chatId msg \<mapsto> bucket next1 (chatId msg) @ [msg])
         else next1)"

text \<open>The body of the first loop of \<^verbatim>\<open>MESSAGES_BULK_ADD\<close>.\<close>

definition bulkAddOne ::
  "(string \<rightharpoonup> ChatMessage list) \<Rightarrow> ChatMessage \<Rightarrow> (string \<rightharpoonup> ChatMessage list)" where
  "bulkAddOne next msg =
     (let cid = chatId msg; existing = bucket next cid
      in if \<not> hasLocalId (localId msg) existing then next(cid \<mapsto> existing @ [msg]) else next)"

text \<open>\<^verbatim>\<open>if (nextMsgs[chatId]) nextMsgs[chatId] = nextMsgs[chatId].map(f)\<close>\<close>

definition mapBucket ::
  "string \<Rightarrow> (ChatMessage \<Rightarrow> ChatMessage) \<Rightarrow> (string \<rightharpoonup> ChatMessage list)
     \<Rightarrow> (string \<rightharpoonup> ChatMessage list)" where
  "mapBucket cid f m = (case m cid of None \<Rightarrow> m | Some b \<Rightarrow> m(cid \<mapsto> map f b))"

text \<open>
  \<^verbatim>\<open>(m.serverId && messageIds.includes(m.serverId)) || messageIds.includes(m.localId)\<close>:
  an absent or empty \<^verbatim>\<open>serverId\<close> is falsy.
\<close>

definition matchesIds :: "string list \<Rightarrow> ChatMessage \<Rightarrow> bool" where
  "matchesIds messageIds m =
     ((case serverId m of None \<Rightarrow> False | Some sid \<Rightarrow> sid \<noteq> [] \<and> sid \<in> set messageIds)
      \<or> localId m \<in> set messageIds)"

fun reducer :: "SocketState \<Rightarrow> SocketAction \<Rightarrow> SocketState" where
  "reducer s (DB_HYDRATED payload) =
     s\<lparr>messages := sortBuckets (foldl hydrateOne (messages s) payload), dbLoaded := True\<rparr>"
| "reducer s CONNECTING = s\<lparr>connectionStatus := Connecting, error := None\<rparr>"
| "reducer s CONNECTED = s\<lparr>connectionStatus := Connected, error := None\<rparr>"
| "reducer s RECONNECTING = s\<lparr>connectionStatus := Reconnecting\<rparr>"
| "reducer s DISCONNECTED = s\<lparr>connectionStatus := Disconnected\<rparr>"
| "reducer s (AUTH_FAILED payload) = s\<lparr>connectionStatus := Auth_failed, error := Some payload\<rparr>"
| "reducer s (ERROR payload) = s\<lparr>error := Some payload\<rparr>"
| "reducer s (MESSAGE_UPDATED lid serverMsg) =
     s\<lparr>messages := mapBucket (wireChatId serverMsg)
        (\<lambda>m. if localId m = lid
             then m\<lparr>serverId := Some (wireId serverMsg), status := Sent,
                    timestamp := wireTimestamp serverMsg\<rparr>
             else m)
        (messages s)\<rparr>"
| "reducer s (MESSAGE_ADDED payload) =
     (let cid = chatId payload; existing = bucket (messages s) cid
      in if hasLocalId (localId payload) existing then s
         else s\<lparr>messages := (messages s)(cid \<mapsto> existing @ [payload])\<rparr>)"
| "reducer s (MESSAGES_BULK_ADD payload) =
     s\<lparr>messages := sortBuckets (foldl bulkAddOne (messages s) payload)\<rparr>"
| "reducer s (MESSAGES_MARKED_READ cid readerUsername) =
     s\<lparr>messages := mapBucket cid
        (\<lambda>m. if senderUsername m \<noteq> readerUsername \<and> status m \<noteq> Read
             then m\<lparr>status := Read\<rparr> else m)
        (messages s)\<rparr>"
| "reducer s (MESSAGES_READ_BY_PEER cid messageIds) =
     s\<lparr>messages := mapBucket cid
        (\<lambda>m. if localId m \<in> set messageIds then m\<lparr>status := Read\<rparr> else m)
        (messages s)\<rparr>"
| "reducer s (MESSAGES_UPDATED_STATUS cid messageIds st) =
     s\<lparr>messages := mapBucket cid
        (\<lambda>m. if matchesIds messageIds m then m\<lparr>status := st\<rparr> else m)
        (messages s)\<rparr>"
| "reducer s (TYPING_UPDATE peerUsername isTyping) =
     s\<lparr>typingPeers := (typingPeers s)(peerUsername \<mapsto> isTyping)\<rparr>"
| "reducer s (PEER_STATUS username st) =
     s\<lparr>peerStatuses := (peerStatuses s)(username \<mapsto> st)\<rparr>"
| "reducer s (CLEAR_CHAT cid) = s\<lparr>messages := (messages s)(cid := None)\<rparr>"

definition initialState :: SocketState where
  "initialState =
     \<lparr>connectionStatus = Idle, messages = Map.empty, typingPeers = Map.empty,
      peerStatuses = Map.empty, dbLoaded = False, error = None\<rparr>"

section \<open>The hook: refs, timers and the transport\<close>

datatype ReadyState = WS_CONNECTING | WS_OPEN | WS_CLOSING | WS_CLOSED

text \<open>The frames the hook passes to \<^verbatim>\<open>ws.send\<close>.\<close>

datatype ClientFrame =
    Send_message string jsText string
  | Mark_read string "string list"
  | Ack_pending "string list"
  | Ping

text \<open>
  \<^verbatim>\<open>ServerFrame\<close>: a parsed inbound frame. \<open>Message_sent\<close> carries the optional
  \<^verbatim>\<open>localId\<close> and the message; \<open>History\<close> the \<^verbatim>\<open>chatId\<close>, \<^verbatim>\<open>with\<close> and the messages;
  \<open>Messages_read\<close> the \<^verbatim>\<open>chatId\<close>, \<^verbatim>\<open>messageIds\<close> and \<^verbatim>\<open>by\<close>; \<open>Error_frame\<close> the
  \<^verbatim>\<open>message\<close> and the \<^verbatim>\<open>code\<close>.
\<close>

datatype ServerFrame =
    Message_sent "string option" WireMessage
  | New_message WireMessage
  | Pending_messages "WireMessage list" "string list"
  | History string string "WireMessage list"
  | Typing_start string
  | Typing_stop string
  | User_status_change string UserStatus
  | Messages_read string "string list" string
  | Pong int
  | Error_frame string int

text \<open>
  The mutable part of one mounted \<^verbatim>\<open>useChatSocket\<close>: the reducer state and the refs.
  \<open>wsRef\<close> is \<^verbatim>\<open>wsRef.current\<close> with the \<^verbatim>\<open>readyState\<close> of that socket;
  \<open>scheduledReconnects\<close> lists the delay of every \<^verbatim>\<open>setTimeout(connect, delay)\<close> made so
  far, oldest first; \<open>outbox\<close> lists the frames given to \<^verbatim>\<open>ws.send\<close>, oldest first;
  \<open>pingTimer\<close> says whether the heartbeat interval is armed; \<open>typingTimers\<close> holds the peers
  whose typing expiry is armed. Writes to the durable store are fire-and-forget and do
  not touch this state.
\<close>

record Hook =
  state :: SocketState
  wsRef :: "ReadyState option"
  isMounted :: bool
  intentionalClose :: bool
  reconnectAttempts :: nat
  scheduledReconnects :: "nat list"
  pingTimer :: bool
  typingTimers :: "string \<Rightarrow> bool"
  outbox :: "ClientFrame list"

definition initialHook :: Hook where
  "initialHook =
     \<lparr>state = initialState, wsRef = None, isMounted = True, intentionalClose = False,
      reconnectAttempts = 0, scheduledReconnects = [], pingTimer = False,
      typingTimers = (\<lambda>_. False), outbox = []\<rparr>"

definition dispatch :: "SocketAction \<Rightarrow> Hook \<Rightarrow> Hook" where
  "dispatch a h = h\<lparr>state := reducer (state h) a\<rparr>"

definition MAX_RECONNECT_ATTEMPTS :: nat where
  "MAX_RECONNECT_ATTEMPTS = 6"

text \<open>JavaScript truthiness of an optional string: absent and empty are falsy.\<close>

definition truthy :: "string option \<Rightarrow> bool" where
  "truthy x = (case x of None \<Rightarrow> False | Some s \<Rightarrow> s \<noteq> [])"

definition giveUpError :: string where
  "giveUpError = ''Could not reconnect after multiple attempts.''"

definition authFailedError :: string where
  "authFailedError = ''Auth failed. Please sign in again.''"

definition scheduleReconnect :: "Hook \<Rightarrow> Hook" where
  "scheduleReconnect h =
     (if \<not> isMounted h then h
      else if reconnectAttempts h \<ge> MAX_RECONNECT_ATTEMPTS
      then dispatch (ERROR giveUpError) h
      else let delay = min (1000 * 2 ^ reconnectAttempts h) 30000;
               h1 = h\<lparr>reconnectAttempts := reconnectAttempts h + 1\<rparr>;
               h2 = dispatch RECONNECTING h1
           in h2\<lparr>scheduledReconnects := scheduledReconnects h2 @ [delay]\<rparr>)"

text \<open>
  \<^verbatim>\<open>connect\<close>: a socket already held is closed with code 1000 and dropped, then a new
  one is created (its \<^verbatim>\<open>readyState\<close> starts at CONNECTING).
\<close>

definition connect :: "string option \<Rightarrow> string option \<Rightarrow> Hook \<Rightarrow> Hook" where
  "connect token myUsername h =
     (if \<not> truthy token \<or> \<not> truthy myUsername \<or> \<not> isMounted h then h
      else let h1 = (if wsRef h \<noteq> None then h\<lparr>wsRef := None, intentionalClose := True\<rparr> else h);
               h2 = dispatch CONNECTING h1
           in h2\<lparr>wsRef := Some WS_CONNECTING, intentionalClose := False\<rparr>)"

definition onopen :: "Hook \<Rightarrow> Hook" where
  "onopen h =
     (if \<not> isMounted h then h
      else (dispatch CONNECTED (h\<lparr>reconnectAttempts := 0\<rparr>))\<lparr>pingTimer := True\<rparr>)"

definition onclose :: "nat \<Rightarrow> Hook \<Rightarrow> Hook" where
  "onclose code h =
     (if \<not> isMounted h then h
      else let h1 = h\<lparr>pingTimer := False\<rparr>
           in if code = 4001 \<or> code = 1006 then dispatch (AUTH_FAILED authFailedError) h1
              else let h2 = dispatch DISCONNECTED h1
                   in if code \<noteq> 1000 \<and> code \<noteq> 1001 \<and> \<not> intentionalClose h2
                      then scheduleReconnect h2 else h2)"

text \<open>
  \<^verbatim>\<open>`[${data.code}] ${data.message}`\<close> prints the code in decimal; codes are integers.
\<close>

fun showNat :: "nat \<Rightarrow> string" where
  "showNat n =
     (if n < 10 then [char_of (48 + n)] else showNat (n div 10) @ [char_of (48 + n mod 10)])"

declare showNat.simps [simp del]

definition showInt :: "int \<Rightarrow> string" where
  "showInt i = (if i < 0 then ''-'' @ showNat (nat (- i)) else showNat (nat i))"

text \<open>
  The message built from a wire message by \<^verbatim>\<open>new_message\<close> and \<^verbatim>\<open>pending_messages\<close>.
\<close>

definition incomingMsg :: "string \<Rightarrow> WireMessage \<Rightarrow> ChatMessage" where
  "incomingMsg myUsername msg =
     \<lparr>localId = wireId msg, serverId = None, chatId = wireChatId msg,
      senderUsername = wireFrom msg, receiverUsername = myUsername,
      msgText = wireText msg, timestamp = wireTimestamp msg, status = Delivered\<rparr>"

text \<open>The message built from a wire message by \<^verbatim>\<open>history\<close>.\<close>

definition historyMsg :: "string \<Rightarrow> string \<Rightarrow> string \<Rightarrow> WireMessage \<Rightarrow> ChatMessage" where
  "historyMsg myUsername cid peer m =
     \<lparr>localId = wireId m, serverId = None, chatId = cid,
      senderUsername = wireFrom m,
      receiverUsername = (if wireFrom m = myUsername then peer else myUsername),
      msgText = wireText m, timestamp = wireTimestamp m,
      status = (if wireFrom m = myUsername then Sent else Delivered)\<rparr>"

text \<open>
  The \<^verbatim>\<open>switch\<close> of \<^verbatim>\<open>ws.onmessage\<close> over the parsed frame, for the user name the socket
  was opened with.
\<close>

fun onframe :: "string \<Rightarrow> ServerFrame \<Rightarrow> Hook \<Rightarrow> Hook" where
  "onframe myUsername (Message_sent lid serverMsg) h =
     dispatch (MESSAGE_UPDATED (case lid of None \<Rightarrow> [] | Some l \<Rightarrow> l) serverMsg) h"
| "onframe myUsername (New_message msg) h =
     dispatch (MESSAGE_ADDED (incomingMsg myUsername msg)) h"
| "onframe myUsername (Pending_messages msgs messageIds) h =
     (let h1 = foldl (\<lambda>h' m. dispatch (MESSAGE_ADDED m) h') h (map (incomingMsg myUsername) msgs)
      in h1\<lparr>outbox := outbox h1 @ [Ack_pending messageIds]\<rparr>)"
| "onframe myUsername (History cid peer hist) h =
     dispatch (MESSAGES_BULK_ADD (map (historyMsg myUsername cid peer) hist)) h"
| "onframe myUsername (Messages_read cid messageIds by) h =
     dispatch (MESSAGES_UPDATED_STATUS cid messageIds Read) h"
| "onframe myUsername (Typing_start sender) h =
     (dispatch (TYPING_UPDATE sender True) h)\<lparr>typingTimers := (typingTimers h)(sender := True)\<rparr>"
| "onframe myUsername (Typing_stop sender) h =
     dispatch (TYPING_UPDATE sender False) (h\<lparr>typingTimers := (typingTimers h)(sender := False)\<rparr>)"
| "onframe myUsername (User_status_change username st) h =
     dispatch (PEER_STATUS username st) h"
| "onframe myUsername (Pong ts) h = h"
| "onframe myUsername (Error_frame message code) h =
     dispatch (ERROR (''['' @ showInt code @ ''] '' @ message)) h"

text \<open>
  \<^verbatim>\<open>ws.onmessage\<close>: the mount guard, then the parse. \<open>None\<close> is a frame that is not
  JSON: it is logged and dropped.
\<close>

definition onmessage :: "string \<Rightarrow> ServerFrame option \<Rightarrow> Hook \<Rightarrow> Hook" where
  "onmessage myUsername data h =
     (if \<not> isMounted h then h
      else case data of None \<Rightarrow> h | Some frame \<Rightarrow> onframe myUsername frame h)"

text \<open>The callback of the typing expiry timer armed by \<^verbatim>\<open>typing_start\<close>.\<close>

definition typingExpired :: "string \<Rightarrow> Hook \<Rightarrow> Hook" where
  "typingExpired sender h =
     (let h1 = h\<lparr>typingTimers := (typingTimers h)(sender := False)\<rparr>
      in if isMounted h1 then dispatch (TYPING_UPDATE sender False) h1 else h1)"

text \<open>
  \<^verbatim>\<open>dmChatId\<close>. User names are ASCII (letters, digits and underscore, by the
  validation schema), so \<^verbatim>\<open>toLowerCase\<close> maps A-Z to a-z and the default \<^verbatim>\<open>sort\<close>
  compares character codes.
\<close>

definition toLowerCase :: "string \<Rightarrow> string" where
  "toLowerCase s =
     map (\<lambda>c. if 65 \<le> (of_char c :: nat) \<and> (of_char c :: nat) \<le> 90
              then char_of (of_char c + 32 :: nat) else c) s"

fun strLeq :: "string \<Rightarrow> string \<Rightarrow> bool" where
  "strLeq [] ys = True"
| "strLeq (x # xs) [] = False"
| "strLeq (x # xs) (y # ys) =
     ((of_char x :: nat) < of_char y \<or> (x = y \<and> strLeq xs ys))"

definition dmChatId :: "string \<Rightarrow> string \<Rightarrow> string" where
  "dmChatId a b =
     (let la = toLowerCase a; lb = toLowerCase b
      in ''dm:'' @ (if strLeq la lb then la @ '':'' @ lb else lb @ '':'' @ la))"

text \<open>
  \<^verbatim>\<open>text.trim()\<close> removes the leading and trailing code units that are white space or
  line terminators of ECMAScript: U+0009 to U+000D, U+0020, U+00A0, U+1680, U+2000 to
  U+200A, U+2028, U+2029, U+202F, U+205F, U+3000 and U+FEFF.
\<close>

definition isSpace :: "codeUnit \<Rightarrow> bool" where
  "isSpace c =
     ((9 \<le> c \<and> c \<le> 13) \<or> c = 32 \<or> c = 160 \<or> c = 5760 \<or> (8192 \<le> c \<and> c \<le> 8202)
      \<or> c = 8232 \<or> c = 8233 \<or> c = 8239 \<or> c = 8287 \<or> c = 12288 \<or> c = 65279)"

definition trim :: "jsText \<Rightarrow> jsText" where
  "trim s = rev (dropWhile isSpace (rev (dropWhile isSpace s)))"

text \<open>
  \<^verbatim>\<open>sendMessage\<close>. The results of \<^verbatim>\<open>uuid()\<close> and \<^verbatim>\<open>Date.now()\<close> are the parameters
  \<open>uuid\<close> and \<open>now\<close>.
\<close>

definition sendMessage ::
  "string option \<Rightarrow> string \<Rightarrow> jsText \<Rightarrow> string \<Rightarrow> int \<Rightarrow> Hook \<Rightarrow> Hook" where
  "sendMessage myUsername receiver txt uuid now h =
     (case myUsername of
        None \<Rightarrow> h
      | Some me \<Rightarrow>
          if me = [] then h
          else if wsRef h \<noteq> Some WS_OPEN then h
          else let trimmed = trim txt
               in if trimmed = [] then h
                  else let optimisticMsg =
                             \<lparr>localId = uuid, serverId = None, chatId = dmChatId me receiver,
                              senderUsername = me, receiverUsername = receiver,
                              msgText = trimmed, timestamp = now, status = Sending\<rparr>;
                           h1 = dispatch (MESSAGE_ADDED optimisticMsg) h
                       in h1\<lparr>outbox := outbox h1 @ [Send_message receiver trimmed uuid]\<rparr>)"

text \<open>
  \<^verbatim>\<open>markAsRead\<close>. \<open>dbMsgs\<close> is what the durable store returns for the conversation.
\<close>

definition markAsRead :: "string option \<Rightarrow> string \<Rightarrow> ChatMessage list \<Rightarrow> Hook \<Rightarrow> Hook" where
  "markAsRead myUsername peerUsername dbMsgs h =
     (case myUsername of
        None \<Rightarrow> h
      | Some me \<Rightarrow>
          if me = [] then h
          else let cid = dmChatId me peerUsername;
                   unreadFromPeer =
                     map (\<lambda>m. case serverId m of
                                 None \<Rightarrow> localId m
                               | Some sid \<Rightarrow> if sid \<noteq> [] then sid else localId m)
                       (filter (\<lambda>m. senderUsername m \<noteq> me \<and> status m \<noteq> Read
                                     \<and> (truthy (serverId m) \<or> localId m \<noteq> [])) dbMsgs)
               in if unreadFromPeer = [] then h
                  else if wsRef h \<noteq> Some WS_OPEN then h
                  else dispatch (MESSAGES_MARKED_READ cid me)
                         (h\<lparr>outbox := outbox h @ [Mark_read peerUsername unreadFromPeer]\<rparr>))"

definition clearChat :: "string \<Rightarrow> Hook \<Rightarrow> Hook" where
  "clearChat cid h = dispatch (CLEAR_CHAT cid) h"

definition reconnect :: "string option \<Rightarrow> string option \<Rightarrow> Hook \<Rightarrow> Hook" where
  "reconnect token myUsername h = connect token myUsername (h\<lparr>reconnectAttempts := 0\<rparr>)"

text \<open>
  The hydration effect: the promise of \<^verbatim>\<open>getRecentMessagesForHydration\<close> resolves with the
  stored messages, or rejects.
\<close>

definition hydrationLoaded :: "ChatMessage list \<Rightarrow> Hook \<Rightarrow> Hook" where
  "hydrationLoaded msgs h = (if \<not> isMounted h then h else dispatch (DB_HYDRATED msgs) h)"

definition hydrationFailed :: "Hook \<Rightarrow> Hook" where
  "hydrationFailed h = dispatch (DB_HYDRATED []) h"

text \<open>The cleanup of the mount effect.\<close>

definition cleanup :: "Hook \<Rightarrow> Hook" where
  "cleanup h =
     h\<lparr>isMounted := False, pingTimer := False, typingTimers := (\<lambda>_. False),
       intentionalClose := True, wsRef := None\<rparr>"

text \<open>
  Everything that can happen to a mounted hook with the props \<open>token\<close> and \<open>myUsername\<close>:
  its effects and callbacks run, the handlers of its socket fire, its timers expire, and
  the browser moves the socket's \<^verbatim>\<open>readyState\<close>. The socket handlers exist only once
  \<^verbatim>\<open>connect\<close> has passed its guard, so they run with a truthy user name.
\<close>

datatype HookEvent =
    Ev_hydrationLoaded "ChatMessage list"
  | Ev_hydrationFailed
  | Ev_connect
  | Ev_readyState ReadyState
  | Ev_open
  | Ev_message "ServerFrame option"
  | Ev_close nat
  | Ev_typingExpired string
  | Ev_sendMessage string jsText string int
  | Ev_markAsRead string "ChatMessage list"
  | Ev_clearChat string
  | Ev_reconnect
  | Ev_cleanup

fun step :: "string option \<Rightarrow> string option \<Rightarrow> Hook \<Rightarrow> HookEvent \<Rightarrow> Hook" where
  "step token myUsername h (Ev_hydrationLoaded msgs) =
     (if truthy myUsername then hydrationLoaded msgs h else h)"
| "step token myUsername h Ev_hydrationFailed =
     (if truthy myUsername then hydrationFailed h else h)"
| "step token myUsername h Ev_connect = connect token myUsername h"
| "step token myUsername h (Ev_readyState rs) =
     (if wsRef h = None then h else h\<lparr>wsRef := Some rs\<rparr>)"
| "step token myUsername h Ev_open = (if truthy myUsername then onopen h else h)"
| "step token myUsername h (Ev_message data) =
     (case myUsername of
        None \<Rightarrow> h
      | Some me \<Rightarrow> if me = [] then h else onmessage me data h)"
| "step token myUsername h (Ev_close code) = (if truthy myUsername then onclose code h else h)"
| "step token myUsername h (Ev_typingExpired sender) = typingExpired sender h"
| "step token myUsername h (Ev_sendMessage receiver txt uuid now) =
     sendMessage myUsername receiver txt uuid now h"
| "step token myUsername h (Ev_markAsRead peer dbMsgs) = markAsRead myUsername peer dbMsgs h"
| "step token myUsername h (Ev_clearChat cid) = clearChat cid h"
| "step token myUsername h Ev_reconnect = reconnect token myUsername h"
| "step token myUsername h Ev_cleanup = cleanup h"

section \<open>Runs and scenarios\<close>

text \<open>A run of the hook: the events are applied in arrival order.\<close>

definition run :: "string option \<Rightarrow> string option \<Rightarrow> Hook \<Rightarrow> HookEvent list \<Rightarrow> Hook" where
  "run token myUsername h evs = foldl (step token myUsername) h evs"

text \<open>
  One connection attempt that fails: \<^verbatim>\<open>connect\<close> runs (called by the mount effect or by
  the reconnect timer) and the socket it created closes with the given code.
\<close>

definition failedAttempt :: "string option \<Rightarrow> string option \<Rightarrow> nat \<Rightarrow> Hook \<Rightarrow> Hook" where
  "failedAttempt token myUsername code h = onclose code (connect token myUsername h)"

text \<open>
  Connection attempts that fail one after the other, each with its own close code, the
  first code first.
\<close>

definition failedAttempts ::
  "string option \<Rightarrow> string option \<Rightarrow> nat list \<Rightarrow> Hook \<Rightarrow> Hook" where
  "failedAttempts token myUsername codes h =
     foldl (\<lambda>h' code. failedAttempt token myUsername code h') h codes"

text \<open>The backoff formula of \<^verbatim>\<open>scheduleReconnect\<close>, by retry counter.\<close>

definition backoffDelay :: "nat \<Rightarrow> nat" where
  "backoffDelay attempt = min (1000 * 2 ^ attempt) 30000"

text \<open>
  A wire message, written positionally, for the concrete scenarios below; its text is
  given as an ASCII literal.
\<close>

definition wire :: "string \<Rightarrow> string \<Rightarrow> string \<Rightarrow> string \<Rightarrow> string \<Rightarrow> int \<Rightarrow> WireMessage" where
  "wire ident cid sender recipient txt ts =
     \<lparr>wireId = ident, wireLocalId = None, wireChatId = cid, wireFrom = sender,
      wireTo = recipient, wireText = ascii txt, wireTimestamp = ts\<rparr>"

text \<open>A stored message, written positionally; its text is given as an ASCII literal.\<close>

definition chatMsg ::
  "string \<Rightarrow> string option \<Rightarrow> string \<Rightarrow> string \<Rightarrow> string \<Rightarrow> string \<Rightarrow> int
     \<Rightarrow> MessageStatus \<Rightarrow> ChatMessage" where
  "chatMsg lid sid cid sender receiver txt ts st =
     \<lparr>localId = lid, serverId = sid, chatId = cid, senderUsername = sender,
      receiverUsername = receiver, msgText = ascii txt, timestamp = ts, status = st\<rparr>"

text \<open>
  The hook of the signed-in user alice once its socket is open: the mount effect
  called \<^verbatim>\<open>connect\<close>, the browser opened the socket, the open handler ran.
\<close>

definition openHook :: Hook where
  "openHook =
     run (Some ''jwt'') (Some ''alice'') initialHook [Ev_connect, Ev_readyState WS_OPEN, Ev_open]"

text \<open>The message of a conversation with a given \<open>localId\<close>, if there is one.\<close>

definition findMsg :: "SocketState \<Rightarrow> string \<Rightarrow> string \<Rightarrow> ChatMessage option" where
  "findMsg s cid lid = find (\<lambda>m. localId m = lid) (bucket (messages s) cid)"

text \<open>
  An event is a read confirmation for a message of a conversation when it is a
  \<^verbatim>\<open>messages_read\<close> frame for that conversation whose identifier list matches the message.
\<close>

definition readConfirmed :: "HookEvent \<Rightarrow> string \<Rightarrow> ChatMessage \<Rightarrow> bool" where
  "readConfirmed ev cid m =
     (case ev of
        Ev_message (Some (Messages_read c messageIds by)) \<Rightarrow> c = cid \<and> matchesIds messageIds m
      | _ \<Rightarrow> False)"

text \<open>An event whose hydration payload, if it has one, holds no message at \<open>Failed\<close>.\<close>

definition hydrationClean :: "HookEvent \<Rightarrow> bool" where
  "hydrationClean ev =
     (case ev of
        Ev_hydrationLoaded msgs \<Rightarrow> list_all (\<lambda>m. status m \<noteq> Failed) msgs
      | _ \<Rightarrow> True)"

text \<open>
  The ways one event of the hook can change the message map \<open>M\<close>; \<open>step_effect\<close> below
  proves that \<open>step\<close> changes it in no other way. The rules follow the reducer cases the
  handlers dispatch: nothing, \<^verbatim>\<open>MESSAGE_ADDED\<close> (once or in a row), \<^verbatim>\<open>DB_HYDRATED\<close> or
  \<^verbatim>\<open>MESSAGES_BULK_ADD\<close>, \<^verbatim>\<open>MESSAGE_UPDATED\<close>, \<^verbatim>\<open>MESSAGES_MARKED_READ\<close> with the user's
  own name as reader, \<^verbatim>\<open>MESSAGES_UPDATED_STATUS\<close> with \<open>Read\<close>, \<^verbatim>\<open>CLEAR_CHAT\<close>.
\<close>

inductive messagesEffect ::
  "string option \<Rightarrow> HookEvent \<Rightarrow> (string \<rightharpoonup> ChatMessage list) \<Rightarrow> (string \<rightharpoonup> ChatMessage list) \<Rightarrow> bool"
  for myUsername :: "string option" and ev :: HookEvent and M :: "string \<rightharpoonup> ChatMessage list"
  where
    same: "messagesEffect myUsername ev M M"
  | added:
      "\<forall>x\<in>set ms. status x = Sending \<or> status x = Delivered
         \<Longrightarrow> messagesEffect myUsername ev M (foldl bulkAddOne M ms)"
  | merged:
      "ev = Ev_hydrationLoaded ms \<or> (\<forall>x\<in>set ms. status x = Sent \<or> status x = Delivered)
         \<Longrightarrow> messagesEffect myUsername ev M (sortBuckets (foldl bulkAddOne M ms))"
  | acked:
      "messagesEffect myUsername ev M
         (mapBucket c
            (\<lambda>m. if localId m = lid
                 then m\<lparr>serverId := Some sid, status := Sent, timestamp := ts\<rparr>
                 else m) M)"
  | marked:
      "myUsername = Some me
         \<Longrightarrow> messagesEffect myUsername ev M
              (mapBucket c
                 (\<lambda>m. if senderUsername m \<noteq> me \<and> status m \<noteq> Read
                      then m\<lparr>status := Read\<rparr> else m) M)"
  | confirmed:
      "ev = Ev_message (Some (Messages_read c messageIds by))
         \<Longrightarrow> messagesEffect myUsername ev M
              (mapBucket c (\<lambda>m. if matchesIds messageIds m then m\<lparr>status := Read\<rparr> else m) M)"
  | cleared:
      "ev = Ev_clearChat c \<Longrightarrow> messagesEffect myUsername ev M (M(c := None))"

section \<open>Connection manager: backoff\<close>

lemma scheduleReconnect_retry:
  assumes "isMounted h" and "reconnectAttempts h < 6"
  shows "scheduledReconnects (scheduleReconnect h)
           = scheduledReconnects h @ [backoffDelay (reconnectAttempts h)]"
    and "reconnectAttempts (scheduleReconnect h) = Suc (reconnectAttempts h)"
    and "isMounted (scheduleReconnect h)"
    and "intentionalClose (scheduleReconnect h) = intentionalClose h"
  using assms
  by (simp_all add: scheduleReconnect_def MAX_RECONNECT_ATTEMPTS_def dispatch_def
      backoffDelay_def Let_def)

lemma scheduleReconnect_exhausted:
  assumes "isMounted h" and "6 \<le> reconnectAttempts h"
  shows "scheduleReconnect h = dispatch (ERROR giveUpError) h"
  using assms by (simp add: scheduleReconnect_def MAX_RECONNECT_ATTEMPTS_def)

lemma connect_refs:
  "reconnectAttempts (connect token myUsername h) = reconnectAttempts h"
  "scheduledReconnects (connect token myUsername h) = scheduledReconnects h"
  "isMounted (connect token myUsername h) = isMounted h"
  by (simp_all add: connect_def dispatch_def Let_def)

lemma connect_not_intentional:
  assumes "truthy token" and "truthy myUsername" and "isMounted h"
  shows "\<not> intentionalClose (connect token myUsername h)"
  using assms by (simp add: connect_def dispatch_def Let_def)

lemma onclose_retryable:
  assumes "isMounted h" and "\<not> intentionalClose h"
    and "code \<noteq> 4001" and "code \<noteq> 1006" and "code \<noteq> 1000" and "code \<noteq> 1001"
  shows "onclose code h = scheduleReconnect (dispatch DISCONNECTED (h\<lparr>pingTimer := False\<rparr>))"
  using assms by (simp add: onclose_def dispatch_def Let_def)

lemma failedAttempt_retry:
  assumes "truthy token" and "truthy myUsername" and "isMounted h"
    and "code \<noteq> 4001" and "code \<noteq> 1006" and "code \<noteq> 1000" and "code \<noteq> 1001"
    and "reconnectAttempts h < 6"
  shows "scheduledReconnects (failedAttempt token myUsername code h)
           = scheduledReconnects h @ [backoffDelay (reconnectAttempts h)]"
    and "reconnectAttempts (failedAttempt token myUsername code h) = Suc (reconnectAttempts h)"
    and "isMounted (failedAttempt token myUsername code h)"
proof -
  let ?c = "connect token myUsername h"
  let ?d = "dispatch DISCONNECTED (?c\<lparr>pingTimer := False\<rparr>)"
  have c: "isMounted ?c" "\<not> intentionalClose ?c"
    using assms(1-3) by (simp_all add: connect_refs connect_not_intentional)
  have eq: "failedAttempt token myUsername code h = scheduleReconnect ?d"
    unfolding failedAttempt_def using onclose_retryable [OF c assms(4-7)] .
  have d: "isMounted ?d" "reconnectAttempts ?d = reconnectAttempts h"
    "scheduledReconnects ?d = scheduledReconnects h"
    using c(1) by (simp_all add: dispatch_def connect_refs)
  from d assms(8) have lt: "reconnectAttempts ?d < 6" by simp
  show "scheduledReconnects (failedAttempt token myUsername code h)
           = scheduledReconnects h @ [backoffDelay (reconnectAttempts h)]"
    using scheduleReconnect_retry(1) [OF d(1) lt] d by (simp add: eq)
  show "reconnectAttempts (failedAttempt token myUsername code h) = Suc (reconnectAttempts h)"
    using scheduleReconnect_retry(2) [OF d(1) lt] d by (simp add: eq)
  show "isMounted (failedAttempt token myUsername code h)"
    using scheduleReconnect_retry(3) [OF d(1) lt] by (simp add: eq)
qed

lemma failedAttempt_exhausted:
  assumes "truthy token" and "truthy myUsername" and "isMounted h"
    and "code \<noteq> 4001" and "code \<noteq> 1006" and "code \<noteq> 1000" and "code \<noteq> 1001"
    and "6 \<le> reconnectAttempts h"
  shows "scheduledReconnects (failedAttempt token myUsername code h) = scheduledReconnects h"
    and "reconnectAttempts (failedAttempt token myUsername code h) = reconnectAttempts h"
    and "isMounted (failedAttempt token myUsername code h)"
    and "error (state (failedAttempt token myUsername code h)) = Some giveUpError"
    and "connectionStatus (state (failedAttempt token myUsername code h)) = Disconnected"
proof -
  let ?c = "connect token myUsername h"
  let ?d = "dispatch DISCONNECTED (?c\<lparr>pingTimer := False\<rparr>)"
  have c: "isMounted ?c" "\<not> intentionalClose ?c"
    using assms(1-3) by (simp_all add: connect_refs connect_not_intentional)
  have d: "isMounted ?d" "6 \<le> reconnectAttempts ?d"
    using c(1) assms(8) by (simp_all add: dispatch_def connect_refs)
  have eq: "failedAttempt token myUsername code h = dispatch (ERROR giveUpError) ?d"
    unfolding failedAttempt_def
    using onclose_retryable [OF c assms(4-7)] scheduleReconnect_exhausted [OF d] by simp
  show "scheduledReconnects (failedAttempt token myUsername code h) = scheduledReconnects h"
    by (simp add: eq dispatch_def connect_refs)
  show "reconnectAttempts (failedAttempt token myUsername code h) = reconnectAttempts h"
    by (simp add: eq dispatch_def connect_refs)
  show "isMounted (failedAttempt token myUsername code h)"
    using c(1) by (simp add: eq dispatch_def)
  show "error (state (failedAttempt token myUsername code h)) = Some giveUpError"
    by (simp add: eq dispatch_def)
  show "connectionStatus (state (failedAttempt token myUsername code h)) = Disconnected"
    by (simp add: eq dispatch_def)
qed

text \<open>
  After \<open>n\<close> failed attempts in a row, starting with a retry counter of zero, the counter
  is \<open>min n 6\<close> and one delay was scheduled for each of the first six.
\<close>

lemma failedAttempt_iterate:
  assumes "truthy token" and "truthy myUsername" and "isMounted h"
    and "code \<noteq> 4001" and "code \<noteq> 1006" and "code \<noteq> 1000" and "code \<noteq> 1001"
    and "reconnectAttempts h = 0"
  shows "isMounted ((failedAttempt token myUsername code ^^ n) h)
     \<and> reconnectAttempts ((failedAttempt token myUsername code ^^ n) h) = min n 6
     \<and> scheduledReconnects ((failedAttempt token myUsername code ^^ n) h)
         = scheduledReconnects h @ map backoffDelay [0..<min n 6]"
proof (induction n)
  case 0
  show ?case using assms(3,8) by simp
next
  case (Suc n)
  let ?h = "(failedAttempt token myUsername code ^^ n) h"
  from Suc have m: "isMounted ?h" and r: "reconnectAttempts ?h = min n 6"
    and s: "scheduledReconnects ?h = scheduledReconnects h @ map backoffDelay [0..<min n 6]"
    by simp_all
  show ?case
  proof (cases "n < 6")
    case True
    then have lt: "reconnectAttempts ?h < 6" using r by simp
    show ?thesis
      using failedAttempt_retry [OF assms(1,2) m assms(4-7) lt] r s True by simp
  next
    case False
    then have ge: "6 \<le> reconnectAttempts ?h" using r by simp
    show ?thesis
      using failedAttempt_exhausted(1-3) [OF assms(1,2) m assms(4-7) ge] r s False
      by (simp add: min_def)
  qed
qed

lemma backoffDelay_first_six:
  "map backoffDelay [0..<6] = [1000, 2000, 4000, 8000, 16000, 30000]"
  by (simp add: backoffDelay_def upt_rec)

lemma failedAttempt_retry_state:
  assumes "truthy token" and "truthy myUsername" and "isMounted h"
    and "code \<noteq> 4001" and "code \<noteq> 1006" and "code \<noteq> 1000" and "code \<noteq> 1001"
    and "reconnectAttempts h < 6"
  shows "connectionStatus (state (failedAttempt token myUsername code h)) = Reconnecting"
    and "error (state (failedAttempt token myUsername code h)) = None"
  using assms
  by (simp_all add: failedAttempt_def onclose_def connect_def scheduleReconnect_def
      MAX_RECONNECT_ATTEMPTS_def dispatch_def Let_def)

lemma failedAttempt_auth:
  assumes "truthy token" and "truthy myUsername" and "isMounted h"
    and "code = 4001 \<or> code = 1006"
  shows "scheduledReconnects (failedAttempt token myUsername code h) = scheduledReconnects h"
    and "reconnectAttempts (failedAttempt token myUsername code h) = reconnectAttempts h"
    and "connectionStatus (state (failedAttempt token myUsername code h)) = Auth_failed"
    and "error (state (failedAttempt token myUsername code h)) = Some authFailedError"
  using assms
  by (auto simp add: failedAttempt_def onclose_def connect_def dispatch_def Let_def)

lemma failedAttempts_snoc:
  "failedAttempts token myUsername (codes @ [code]) h
     = failedAttempt token myUsername code (failedAttempts token myUsername codes h)"
  by (simp add: failedAttempts_def)

text \<open>The same count as \<open>failedAttempt_iterate\<close>, each attempt with a close code of its own.\<close>

lemma failedAttempts_iterate:
  assumes "truthy token" and "truthy myUsername" and "isMounted h"
    and "reconnectAttempts h = 0"
    and "\<forall>c\<in>set codes. c \<noteq> 4001 \<and> c \<noteq> 1006 \<and> c \<noteq> 1000 \<and> c \<noteq> 1001"
  shows "isMounted (failedAttempts token myUsername codes h)
     \<and> reconnectAttempts (failedAttempts token myUsername codes h) = min (length codes) 6
     \<and> scheduledReconnects (failedAttempts token myUsername codes h)
         = scheduledReconnects h @ map backoffDelay [0..<min (length codes) 6]"
  using assms(5)
proof (induction codes rule: rev_induct)
  case Nil
  show ?case using assms(3,4) by (simp add: failedAttempts_def)
next
  case (snoc c cs)
  let ?h = "failedAttempts token myUsername cs h"
  from snoc have m: "isMounted ?h" and r: "reconnectAttempts ?h = min (length cs) 6"
    and s: "scheduledReconnects ?h = scheduledReconnects h @ map backoffDelay [0..<min (length cs) 6]"
    by simp_all
  from snoc.prems have c: "c \<noteq> 4001" "c \<noteq> 1006" "c \<noteq> 1000" "c \<noteq> 1001" by simp_all
  show ?case
  proof (cases "length cs < 6")
    case True
    then have lt: "reconnectAttempts ?h < 6" using r by simp
    show ?thesis
      using failedAttempt_retry [OF assms(1,2) m c lt] r s True
      by (simp add: failedAttempts_snoc)
  next
    case False
    then have ge: "6 \<le> reconnectAttempts ?h" using r by simp
    show ?thesis
      using failedAttempt_exhausted(1-3) [OF assms(1,2) m c ge] r s False
      by (simp add: failedAttempts_snoc min_def)
  qed
qed

text \<open>
  Claim C1, as amended. On a mounted hook with a token and a user name whose retry
  counter is zero, let connection attempts fail one after the other, each closing with
  a code that is retried (any code but 4001, 1006, 1000 and 1001; the close of an
  attempt is never self-initiated). Then one reconnect delay is scheduled after each of
  the first six failures, the delay at counter \<open>k\<close> being \<open>min (1000 * 2^k) 30000\<close>, so
  the six delays are exactly 1000, 2000, 4000, 8000, 16000, 30000 ms, and the counter
  grows by one per scheduled retry; up to there the status is \<open>Reconnecting\<close> and no
  error is set. The sixth retry is the seventh connection attempt: when it fails too,
  and at every later failure, nothing more is scheduled, the status is \<open>Disconnected\<close>
  and the give-up error, which differs from the authentication error, is surfaced. The
  open handler of a mounted hook resets the counter to zero. An attempt that closes
  with 4001 or 1006 schedules nothing and sets \<open>Auth_failed\<close>.
\<close>

theorem C1_backoff_retried_codes:
  assumes "truthy token" and "truthy myUsername" and "isMounted h"
    and "reconnectAttempts h = 0"
    and "\<forall>c\<in>set codes. c \<noteq> 4001 \<and> c \<noteq> 1006 \<and> c \<noteq> 1000 \<and> c \<noteq> 1001"
  shows "scheduledReconnects (failedAttempts token myUsername codes h)
           = scheduledReconnects h
               @ map (\<lambda>k. min (1000 * 2 ^ k) 30000) [0..<min (length codes) 6]
     \<and> reconnectAttempts (failedAttempts token myUsername codes h) = min (length codes) 6
     \<and> (length codes = 6 \<longrightarrow>
           scheduledReconnects (failedAttempts token myUsername codes h)
             = scheduledReconnects h @ [1000, 2000, 4000, 8000, 16000, 30000])
     \<and> (1 \<le> length codes \<and> length codes \<le> 6 \<longrightarrow>
           connectionStatus (state (failedAttempts token myUsername codes h)) = Reconnecting
         \<and> error (state (failedAttempts token myUsername codes h)) = None)
     \<and> (7 \<le> length codes \<longrightarrow>
           scheduledReconnects (failedAttempts token myUsername codes h)
             = scheduledReconnects h @ [1000, 2000, 4000, 8000, 16000, 30000]
         \<and> connectionStatus (state (failedAttempts token myUsername codes h)) = Disconnected
         \<and> error (state (failedAttempts token myUsername codes h)) = Some giveUpError)
     \<and> giveUpError \<noteq> authFailedError
     \<and> (\<forall>h'. isMounted h' \<longrightarrow> reconnectAttempts (onopen h') = 0)
     \<and> (\<forall>c. c = 4001 \<or> c = 1006 \<longrightarrow>
           scheduledReconnects (failedAttempt token myUsername c h) = scheduledReconnects h
         \<and> connectionStatus (state (failedAttempt token myUsername c h)) = Auth_failed)"
proof -
  let ?fa = "failedAttempts token myUsername"
  note it = failedAttempts_iterate [OF assms(1-4)]
  have delays: "scheduledReconnects (?fa codes h)
           = scheduledReconnects h
               @ map (\<lambda>k. min (1000 * 2 ^ k) 30000) [0..<min (length codes) 6]"
    using it [OF assms(5)] by (simp add: backoffDelay_def [abs_def])
  have counter: "reconnectAttempts (?fa codes h) = min (length codes) 6"
    using it [OF assms(5)] by simp
  have six: "length codes = 6 \<longrightarrow>
           scheduledReconnects (?fa codes h)
             = scheduledReconnects h @ [1000, 2000, 4000, 8000, 16000, 30000]"
    using it [OF assms(5)] by (simp add: backoffDelay_first_six)
  have last: "\<exists>cs c. codes = cs @ [c]" if "1 \<le> length codes"
    using that by (cases codes rule: rev_cases) simp_all
  have early: "1 \<le> length codes \<and> length codes \<le> 6 \<longrightarrow>
           connectionStatus (state (?fa codes h)) = Reconnecting
         \<and> error (state (?fa codes h)) = None"
  proof
    assume len: "1 \<le> length codes \<and> length codes \<le> 6"
    then obtain cs c where cs: "codes = cs @ [c]" using last by blast
    from assms(5) cs have ok: "\<forall>c\<in>set cs. c \<noteq> 4001 \<and> c \<noteq> 1006 \<and> c \<noteq> 1000 \<and> c \<noteq> 1001"
      and c: "c \<noteq> 4001" "c \<noteq> 1006" "c \<noteq> 1000" "c \<noteq> 1001" by simp_all
    from len cs have "length cs < 6" by simp
    with it [OF ok] have m: "isMounted (?fa cs h)" and lt: "reconnectAttempts (?fa cs h) < 6"
      by simp_all
    show "connectionStatus (state (?fa codes h)) = Reconnecting
         \<and> error (state (?fa codes h)) = None"
      using failedAttempt_retry_state [OF assms(1,2) m c lt]
      by (simp add: cs failedAttempts_snoc)
  qed
  have stop: "7 \<le> length codes \<longrightarrow>
           scheduledReconnects (?fa codes h)
             = scheduledReconnects h @ [1000, 2000, 4000, 8000, 16000, 30000]
         \<and> connectionStatus (state (?fa codes h)) = Disconnected
         \<and> error (state (?fa codes h)) = Some giveUpError"
  proof
    assume len: "7 \<le> length codes"
    then obtain cs c where cs: "codes = cs @ [c]" using last by fastforce
    from assms(5) cs have ok: "\<forall>c\<in>set cs. c \<noteq> 4001 \<and> c \<noteq> 1006 \<and> c \<noteq> 1000 \<and> c \<noteq> 1001"
      and c: "c \<noteq> 4001" "c \<noteq> 1006" "c \<noteq> 1000" "c \<noteq> 1001" by simp_all
    from len cs have "6 \<le> length cs" by simp
    with it [OF ok] have m: "isMounted (?fa cs h)" and ge: "6 \<le> reconnectAttempts (?fa cs h)"
      by simp_all
    from len have "min (length codes) 6 = 6" by simp
    with it [OF assms(5)] have "scheduledReconnects (?fa codes h)
             = scheduledReconnects h @ [1000, 2000, 4000, 8000, 16000, 30000]"
      by (simp add: backoffDelay_first_six)
    then show "scheduledReconnects (?fa codes h)
             = scheduledReconnects h @ [1000, 2000, 4000, 8000, 16000, 30000]
         \<and> connectionStatus (state (?fa codes h)) = Disconnected
         \<and> error (state (?fa codes h)) = Some giveUpError"
      using failedAttempt_exhausted(4,5) [OF assms(1,2) m c ge]
      by (simp add: cs failedAttempts_snoc)
  qed
  have distinct_error: "giveUpError \<noteq> authFailedError"
    by (simp add: giveUpError_def authFailedError_def)
  have reset: "\<forall>h'. isMounted h' \<longrightarrow> reconnectAttempts (onopen h') = 0"
    by (simp add: onopen_def dispatch_def)
  have auth: "\<forall>c. c = 4001 \<or> c = 1006 \<longrightarrow>
           scheduledReconnects (failedAttempt token myUsername c h) = scheduledReconnects h
         \<and> connectionStatus (state (failedAttempt token myUsername c h)) = Auth_failed"
    using failedAttempt_auth(1,3) [OF assms(1-3)] by blast
  from delays counter six early stop distinct_error reset auth show ?thesis by blast
qed

theorem C1_backoff_retried_codes_witness:
  "scheduledReconnects
      (failedAttempts (Some ''jwt'') (Some ''alice'') [1011, 1012, 4000, 1011, 1002, 1013]
         initialHook)
     = [1000, 2000, 4000, 8000, 16000, 30000]
   \<and> error (state
      (failedAttempts (Some ''jwt'') (Some ''alice'') [1011, 1012, 4000, 1011, 1002, 1013]
         initialHook))
     = None
   \<and> scheduledReconnects
      (failedAttempts (Some ''jwt'') (Some ''alice'') [1011, 1012, 4000, 1011, 1002, 1013, 1011]
         initialHook)
     = [1000, 2000, 4000, 8000, 16000, 30000]
   \<and> error (state
      (failedAttempts (Some ''jwt'') (Some ''alice'') [1011, 1012, 4000, 1011, 1002, 1013, 1011]
         initialHook))
     = Some giveUpError
   \<and> reconnectAttempts
      (failedAttempts (Some ''jwt'') (Some ''alice'') [1011, 1012, 4000, 1011, 1002, 1013, 1011]
         initialHook)
     = 6"
proof -
  have t: "truthy (Some ''jwt'')" "truthy (Some ''alice'')" by (simp_all add: truthy_def)
  have m: "isMounted initialHook" "reconnectAttempts initialHook = 0"
    by (simp_all add: initialHook_def)
  have e: "scheduledReconnects initialHook = []"
    by (simp add: initialHook_def)
  have c6: "\<forall>c\<in>set [1011, 1012, 4000, 1011, 1002, 1013 :: nat].
              c \<noteq> 4001 \<and> c \<noteq> 1006 \<and> c \<noteq> 1000 \<and> c \<noteq> 1001"
    by simp
  have c7: "\<forall>c\<in>set [1011, 1012, 4000, 1011, 1002, 1013, 1011 :: nat].
              c \<noteq> 4001 \<and> c \<noteq> 1006 \<and> c \<noteq> 1000 \<and> c \<noteq> 1001"
    by simp
  note six = C1_backoff_retried_codes [OF t m c6]
  note seven = C1_backoff_retried_codes [OF t m c7]
  from six have a: "scheduledReconnects
      (failedAttempts (Some ''jwt'') (Some ''alice'') [1011, 1012, 4000, 1011, 1002, 1013]
         initialHook)
     = [1000, 2000, 4000, 8000, 16000, 30000]"
    by (simp add: e)
  from six have b: "error (state
      (failedAttempts (Some ''jwt'') (Some ''alice'') [1011, 1012, 4000, 1011, 1002, 1013]
         initialHook))
     = None"
    by simp
  from seven have c: "scheduledReconnects
      (failedAttempts (Some ''jwt'') (Some ''alice'') [1011, 1012, 4000, 1011, 1002, 1013, 1011]
         initialHook)
     = [1000, 2000, 4000, 8000, 16000, 30000]
   \<and> error (state
      (failedAttempts (Some ''jwt'') (Some ''alice'') [1011, 1012, 4000, 1011, 1002, 1013, 1011]
         initialHook))
     = Some giveUpError
   \<and> reconnectAttempts
      (failedAttempts (Some ''jwt'') (Some ''alice'') [1011, 1012, 4000, 1011, 1002, 1013, 1011]
         initialHook)
     = 6"
    by (simp add: e)
  from a b c show ?thesis by simp
qed

text \<open>
  Claim C1 as stated fails: it puts no condition on how an attempt fails. An attempt
  whose socket never opens closes with code 1006; the close handler then sets
  \<open>Auth_failed\<close> and schedules no delay at all, so the first failure already arms no
  1000 ms retry.
\<close>

theorem C1_unopened_attempt_not_retried:
  "scheduledReconnects (failedAttempt (Some ''jwt'') (Some ''alice'') 1006 initialHook) = []
   \<and> reconnectAttempts (failedAttempt (Some ''jwt'') (Some ''alice'') 1006 initialHook) = 0
   \<and> connectionStatus (state (failedAttempt (Some ''jwt'') (Some ''alice'') 1006 initialHook))
     = Auth_failed
   \<and> error (state (failedAttempt (Some ''jwt'') (Some ''alice'') 1006 initialHook))
     = Some authFailedError"
  by (simp add: failedAttempt_def onclose_def connect_def dispatch_def truthy_def
      initialHook_def initialState_def Let_def)

section \<open>Reducer: buckets\<close>

lemma bucket_sortBuckets: "bucket (sortBuckets m) k = sort_key timestamp (bucket m k)"
  by (simp add: bucket_def sortBuckets_def split: option.split)

lemma bucket_bulkAddOne:
  "bucket (bulkAddOne m msg) k =
     (if k = chatId msg \<and> \<not> hasLocalId (localId msg) (bucket m k)
      then bucket m k @ [msg] else bucket m k)"
  by (simp add: bulkAddOne_def Let_def bucket_def)

lemma find_None_hasLocalId:
  "(find (\<lambda>m. localId m = lid) b = None) = (\<not> hasLocalId lid b)"
  by (auto simp add: hasLocalId_def find_None_iff list_ex_iff)

text \<open>The loop bodies of hydration and of the bulk add compute the same map.\<close>

lemma hydrateOne_eq: "hydrateOne m msg = bulkAddOne m msg"
  by (cases "m (chatId msg)")
     (auto simp add: hydrateOne_def bulkAddOne_def Let_def bucket_def find_None_hasLocalId
        hasLocalId_def)

lemma foldl_hydrateOne: "foldl hydrateOne m msgs = foldl bulkAddOne m msgs"
  by (induction msgs arbitrary: m) (simp_all add: hydrateOne_eq)

lemma bucket_mapBucket:
  "bucket (mapBucket cid f m) k = (if k = cid then map f (bucket m k) else bucket m k)"
  by (simp add: mapBucket_def bucket_def split: option.split)

lemma bucket_clear: "bucket (m(cid := None)) k = (if k = cid then [] else bucket m k)"
  by (simp add: bucket_def)

lemma messages_MESSAGE_ADDED:
  "messages (reducer s (MESSAGE_ADDED p)) = bulkAddOne (messages s) p"
  by (simp add: bulkAddOne_def Let_def)

lemma hasLocalId_set: "hasLocalId lid b = (lid \<in> localId ` set b)"
  by (auto simp add: hasLocalId_def list_ex_iff)

section \<open>Reducer: a local identifier occurs once per bucket\<close>

lemma distinct_bulkAddOne:
  "distinct (map localId (bucket m k))
     \<Longrightarrow> distinct (map localId (bucket (bulkAddOne m msg) k))"
  by (auto simp add: bucket_bulkAddOne hasLocalId_set)

lemma distinct_foldl_bulkAddOne:
  "distinct (map localId (bucket m k))
     \<Longrightarrow> distinct (map localId (bucket (foldl bulkAddOne m msgs) k))"
  by (induction msgs arbitrary: m) (simp_all add: distinct_bulkAddOne)

lemma distinct_map_insort_key:
  "distinct (map g (insort_key f x xs)) = (g x \<notin> g ` set xs \<and> distinct (map g xs))"
  by (induction xs) (auto simp add: set_insort_key)

lemma distinct_map_sort_key: "distinct (map g (sort_key f xs)) = distinct (map g xs)"
  by (induction xs) (simp_all add: distinct_map_insort_key)

lemma distinct_sortBuckets:
  "distinct (map localId (bucket (sortBuckets m) k)) = distinct (map localId (bucket m k))"
  by (simp add: bucket_sortBuckets distinct_map_sort_key)

lemma distinct_mapBucket:
  assumes "\<And>x. localId (f x) = localId x"
  shows "distinct (map localId (bucket (mapBucket cid f m) k))
           = distinct (map localId (bucket m k))"
proof -
  have "localId \<circ> f = localId" using assms by (simp add: fun_eq_iff)
  then show ?thesis by (simp add: bucket_mapBucket)
qed

lemma reducer_distinct:
  assumes "\<And>k. distinct (map localId (bucket (messages s) k))"
  shows "distinct (map localId (bucket (messages (reducer s a)) k))"
proof (cases a)
  case (DB_HYDRATED payload)
  then show ?thesis using assms
    by (simp add: foldl_hydrateOne distinct_sortBuckets distinct_foldl_bulkAddOne)
next
  case (MESSAGE_ADDED p)
  then show ?thesis using assms
    by (simp only: messages_MESSAGE_ADDED distinct_bulkAddOne)
next
  case (MESSAGES_BULK_ADD payload)
  then show ?thesis using assms
    by (simp add: distinct_sortBuckets distinct_foldl_bulkAddOne)
next
  case (MESSAGE_UPDATED lid srv)
  then show ?thesis using assms by (simp add: distinct_mapBucket)
next
  case (MESSAGES_MARKED_READ c r)
  then show ?thesis using assms by (simp add: distinct_mapBucket)
next
  case (MESSAGES_READ_BY_PEER c ids)
  then show ?thesis using assms by (simp add: distinct_mapBucket)
next
  case (MESSAGES_UPDATED_STATUS c ids st)
  then show ?thesis using assms by (simp add: distinct_mapBucket)
next
  case (CLEAR_CHAT c)
  then show ?thesis using assms by (simp add: bucket_clear)
qed (use assms in simp_all)

lemma foldl_reducer_distinct:
  assumes "\<And>k. distinct (map localId (bucket (messages s) k))"
  shows "distinct (map localId (bucket (messages (foldl reducer s acts)) k))"
  using assms
proof (induction acts arbitrary: s k)
  case Nil
  then show ?case by simp
next
  case (Cons a acts)
  show ?case
    unfolding foldl_Cons
    by (rule Cons.IH) (rule reducer_distinct, rule Cons.prems)
qed

text \<open>
  Claim C4, as amended. In every snapshot reached from the initial state by reducer
  transitions, no two messages of one conversation bucket share a \<open>localId\<close>.
\<close>

theorem C4_localId_unique_per_bucket:
  "distinct (map localId (bucket (messages (foldl reducer initialState acts)) cid))"
  by (rule foldl_reducer_distinct) (simp add: initialState_def bucket_def)

text \<open>
  Claim C4 as stated fails: the three adding transitions look for the \<open>localId\<close> only in
  the bucket of the message's own conversation. Two inbound messages with the same
  identifier in two conversations are both stored.
\<close>

theorem C4_localId_shared_across_buckets:
  "bucket (messages (foldl reducer initialState
       [MESSAGE_ADDED (incomingMsg ''alice'' (wire ''42'' ''dm:alice:bob'' ''bob'' ''alice'' ''hi'' 100)),
        MESSAGE_ADDED (incomingMsg ''alice'' (wire ''42'' ''dm:alice:carol'' ''carol'' ''alice'' ''yo'' 200))]))
     ''dm:alice:bob''
     = [incomingMsg ''alice'' (wire ''42'' ''dm:alice:bob'' ''bob'' ''alice'' ''hi'' 100)]
   \<and> bucket (messages (foldl reducer initialState
       [MESSAGE_ADDED (incomingMsg ''alice'' (wire ''42'' ''dm:alice:bob'' ''bob'' ''alice'' ''hi'' 100)),
        MESSAGE_ADDED (incomingMsg ''alice'' (wire ''42'' ''dm:alice:carol'' ''carol'' ''alice'' ''yo'' 200))]))
     ''dm:alice:carol''
     = [incomingMsg ''alice'' (wire ''42'' ''dm:alice:carol'' ''carol'' ''alice'' ''yo'' 200)]
   \<and> localId (incomingMsg ''alice'' (wire ''42'' ''dm:alice:bob'' ''bob'' ''alice'' ''hi'' 100))
     = localId (incomingMsg ''alice'' (wire ''42'' ''dm:alice:carol'' ''carol'' ''alice'' ''yo'' 200))
   \<and> incomingMsg ''alice'' (wire ''42'' ''dm:alice:bob'' ''bob'' ''alice'' ''hi'' 100)
     \<noteq> incomingMsg ''alice'' (wire ''42'' ''dm:alice:carol'' ''carol'' ''alice'' ''yo'' 200)"
  by (simp add: initialState_def incomingMsg_def wire_def bucket_def hasLocalId_def Let_def)

section \<open>Reducer: order of a bucket\<close>

lemma sorted_after_bulk_add:
  "sorted (map timestamp (bucket (messages (reducer s (MESSAGES_BULK_ADD payload))) k))"
  by (simp add: bucket_sortBuckets)

lemma sorted_after_hydration:
  "sorted (map timestamp (bucket (messages (reducer s (DB_HYDRATED payload))) k))"
  by (simp add: bucket_sortBuckets)

text \<open>History replay sorts every bucket, and the scenario of the specification holds for it.\<close>

lemma history_sorted:
  assumes "isMounted h"
  shows "sorted (map timestamp
           (bucket (messages (state (onmessage me (Some (History cid peer hist)) h))) k))"
  using assms by (simp add: onmessage_def dispatch_def bucket_sortBuckets)

lemma history_scenario:
  "map timestamp (bucket (messages (state (onmessage ''alice''
       (Some (History ''dm:alice:bob'' ''bob''
          [wire ''a'' ''dm:alice:bob'' ''bob'' ''alice'' ''x'' 300,
           wire ''b'' ''dm:alice:bob'' ''bob'' ''alice'' ''y'' 100,
           wire ''c'' ''dm:alice:bob'' ''bob'' ''alice'' ''z'' 200]))
       initialHook))) ''dm:alice:bob'')
     = [100, 200, 300]"
  by (simp add: onmessage_def dispatch_def initialHook_def initialState_def historyMsg_def
      wire_def bucket_def sortBuckets_def bulkAddOne_def hasLocalId_def Let_def)

text \<open>
  Claim C2 fails on the backlog flush. The \<^verbatim>\<open>pending_messages\<close> handler dispatches one
  \<^verbatim>\<open>MESSAGE_ADDED\<close> per message, which appends and never sorts: messages with the
  timestamps 300, 100, 200 flushed into an empty conversation stay in arrival order,
  and the bucket is not sorted.
\<close>

theorem C2_pending_messages_not_sorted:
  "map timestamp (bucket (messages (state (onmessage ''alice''
       (Some (Pending_messages
          [wire ''a'' ''dm:alice:bob'' ''bob'' ''alice'' ''x'' 300,
           wire ''b'' ''dm:alice:bob'' ''bob'' ''alice'' ''y'' 100,
           wire ''c'' ''dm:alice:bob'' ''bob'' ''alice'' ''z'' 200]
          [''a'', ''b'', ''c'']))
       initialHook))) ''dm:alice:bob'')
     = [300, 100, 200]
   \<and> \<not> sorted [300, 100, 200 :: int]"
  by (simp add: onmessage_def dispatch_def initialHook_def initialState_def incomingMsg_def
      wire_def bucket_def hasLocalId_def Let_def)

section \<open>Hook: what a handler leaves alone\<close>

lemma mapBucket_id:
  assumes "\<And>x. x \<in> set (bucket m cid) \<Longrightarrow> f x = x"
  shows "mapBucket cid f m = m"
proof (cases "m cid")
  case None
  then show ?thesis by (simp add: mapBucket_def)
next
  case (Some b)
  with assms have "map f b = b" by (simp add: bucket_def map_idI)
  with Some show ?thesis by (simp add: mapBucket_def fun_upd_idem)
qed

lemma dom_mapBucket: "dom (mapBucket cid f m) = dom m"
  by (auto simp add: mapBucket_def split: option.splits if_splits)

lemma mapBucket_other: "k \<noteq> cid \<Longrightarrow> mapBucket cid f m k = m k"
  by (simp add: mapBucket_def split: option.split)

lemma dispatch_fields:
  "state (dispatch a h) = reducer (state h) a"
  "wsRef (dispatch a h) = wsRef h"
  "isMounted (dispatch a h) = isMounted h"
  "intentionalClose (dispatch a h) = intentionalClose h"
  "reconnectAttempts (dispatch a h) = reconnectAttempts h"
  "scheduledReconnects (dispatch a h) = scheduledReconnects h"
  "outbox (dispatch a h) = outbox h"
  by (simp_all add: dispatch_def)

lemma state_messages_read:
  "isMounted h \<Longrightarrow> state (onmessage me (Some (Messages_read cid ids by)) h)
     = reducer (state h) (MESSAGES_UPDATED_STATUS cid ids Read)"
  by (simp add: onmessage_def dispatch_def)

lemma foldl_dispatch_fields:
  "wsRef (foldl (\<lambda>h' a. dispatch (g a) h') h as) = wsRef h"
  "isMounted (foldl (\<lambda>h' a. dispatch (g a) h') h as) = isMounted h"
  "outbox (foldl (\<lambda>h' a. dispatch (g a) h') h as) = outbox h"
  by (induction as arbitrary: h) (simp_all add: dispatch_fields)

lemma state_foldl_dispatch:
  "state (foldl (\<lambda>h' a. dispatch (g a) h') h as) = foldl (\<lambda>s a. reducer s (g a)) (state h) as"
  by (induction as arbitrary: h) (simp_all add: dispatch_fields)

lemma wsRef_onframe: "wsRef (onframe me f h) = wsRef h"
  by (cases f) (simp_all add: dispatch_fields foldl_dispatch_fields Let_def)

lemma wsRef_onmessage: "wsRef (onmessage me d h) = wsRef h"
  by (simp add: onmessage_def wsRef_onframe split: option.split)

lemma wsRef_scheduleReconnect: "wsRef (scheduleReconnect h) = wsRef h"
  by (simp add: scheduleReconnect_def dispatch_def Let_def)

lemma wsRef_onclose: "wsRef (onclose code h) = wsRef h"
  by (simp add: onclose_def dispatch_def Let_def wsRef_scheduleReconnect)

lemma wsRef_connect:
  "wsRef (connect token me h) \<noteq> None \<Longrightarrow> wsRef h = None \<Longrightarrow> truthy token \<and> truthy me"
  by (auto simp add: connect_def dispatch_def Let_def split: if_splits)

lemma wsRef_step:
  assumes "wsRef h \<noteq> None \<longrightarrow> truthy token \<and> truthy me"
  shows "wsRef (step token me h ev) \<noteq> None \<longrightarrow> truthy token \<and> truthy me"
proof (cases ev)
  case Ev_connect
  then show ?thesis using assms wsRef_connect [of token me h] by auto
next
  case Ev_reconnect
  then show ?thesis using assms wsRef_connect [of token me "h\<lparr>reconnectAttempts := 0\<rparr>"]
    by (auto simp add: reconnect_def)
next
  case (Ev_message d)
  then show ?thesis using assms by (auto simp add: wsRef_onmessage split: option.splits)
next
  case (Ev_sendMessage r t u n)
  then show ?thesis using assms
    by (auto simp add: sendMessage_def dispatch_def Let_def split: option.splits if_splits)
next
  case (Ev_markAsRead p d)
  then show ?thesis using assms
    by (auto simp add: markAsRead_def dispatch_def Let_def split: option.splits if_splits)
qed (use assms in \<open>auto simp add: hydrationLoaded_def hydrationFailed_def dispatch_def
      onopen_def wsRef_onclose typingExpired_def clearChat_def cleanup_def Let_def split: if_splits\<close>)

lemma wsRef_run:
  "wsRef (run token me initialHook evs) \<noteq> None \<longrightarrow> truthy token \<and> truthy me"
proof (induction evs rule: rev_induct)
  case Nil
  show ?case by (simp add: run_def initialHook_def)
next
  case (snoc ev evs)
  show ?case using wsRef_step [OF snoc] by (simp add: run_def)
qed

lemma filter_no_localId:
  "\<not> hasLocalId lid b \<Longrightarrow> filter (\<lambda>m. localId m = lid) b = []"
  by (auto simp add: hasLocalId_def list_ex_iff filter_empty_conv)

lemma state_message_sent:
  "isMounted h \<Longrightarrow> state (onmessage me (Some (Message_sent lid srv)) h)
     = reducer (state h) (MESSAGE_UPDATED (case lid of None \<Rightarrow> [] | Some l \<Rightarrow> l) srv)"
  by (simp add: onmessage_def dispatch_fields)

lemma message_sent_unmatched:
  assumes "\<not> hasLocalId (case lid of None \<Rightarrow> [] | Some l \<Rightarrow> l)
               (bucket (messages (state h)) (wireChatId srv))"
  shows "onmessage me (Some (Message_sent lid srv)) h = h"
proof -
  let ?l = "case lid of None \<Rightarrow> [] | Some l \<Rightarrow> l"
  let ?f = "\<lambda>m. if localId m = ?l
             then m\<lparr>serverId := Some (wireId srv), status := Sent,
                    timestamp := wireTimestamp srv\<rparr>
             else m"
  have "mapBucket (wireChatId srv) ?f (messages (state h)) = messages (state h)"
    by (rule mapBucket_id) (use assms in \<open>auto simp add: hasLocalId_def list_ex_iff\<close>)
  then show ?thesis by (simp add: onmessage_def dispatch_def)
qed

section \<open>Concrete hooks\<close>

lemma openHook_eval:
  "openHook = initialHook\<lparr>state := initialState\<lparr>connectionStatus := Connected\<rparr>,
                          wsRef := Some WS_OPEN, pingTimer := True\<rparr>"
  by (simp add: openHook_def run_def connect_def onopen_def dispatch_def truthy_def
      initialHook_def initialState_def Let_def)

lemma dm_alice_bob: "dmChatId ''alice'' ''bob'' = ''dm:alice:bob''"
  by (simp add: dmChatId_def toLowerCase_def Let_def)

lemma ascii_eq_Nil [simp]: "(ascii s = []) = (s = [])"
  by (simp add: ascii_def)

lemma trim_hi: "trim (ascii ''  hi '') = ascii ''hi''"
  by (simp add: trim_def isSpace_def ascii_def)

lemma trim_blank: "trim (ascii ''   '') = []"
  by (simp add: trim_def isSpace_def ascii_def)

text \<open>A no-break space and an ideographic space are trimmed like a space.\<close>

lemma trim_nbsp: "trim [160, 12288] = []"
  by (simp add: trim_def isSpace_def)

lemma trim_nbsp_edges: "trim ([160] @ ascii ''hi'' @ [8239, 10]) = ascii ''hi''"
  by (simp add: trim_def isSpace_def ascii_def)

section \<open>Remote read confirmation\<close>

text \<open>
  Claim C5. On a mounted hook, a \<^verbatim>\<open>messages_read\<close> frame for a conversation keeps the
  bucket's length and order and changes nothing but the status: a message is set to
  \<open>Read\<close>, whatever its status was, exactly when its \<open>serverId\<close> is set (present and not
  empty) and is in the identifier list, or its \<open>localId\<close> is in the list; every other
  message of the bucket keeps its status. In particular a matched message at \<open>Sent\<close>
  goes to \<open>Read\<close> at once. All other buckets are unchanged.
\<close>

theorem C5_messages_read:
  assumes "isMounted h"
  shows "let h' = onmessage me (Some (Messages_read cid ids by)) h;
             b = bucket (messages (state h)) cid;
             b' = bucket (messages (state h')) cid
         in length b' = length b
          \<and> (\<forall>i<length b.
                b' ! i = (b ! i)\<lparr>status :=
                  (if (\<exists>sid. serverId (b ! i) = Some sid \<and> sid \<noteq> [] \<and> sid \<in> set ids)
                        \<or> localId (b ! i) \<in> set ids
                   then Read else status (b ! i))\<rparr>)
          \<and> (\<forall>i<length b. status (b ! i) = Sent \<and> localId (b ! i) \<in> set ids
                \<longrightarrow> status (b' ! i) = Read)
          \<and> (\<forall>k. k \<noteq> cid \<longrightarrow> messages (state h') k = messages (state h) k)
          \<and> dom (messages (state h')) = dom (messages (state h))"
proof -
  have m: "matchesIds ids x =
        ((\<exists>sid. serverId x = Some sid \<and> sid \<noteq> [] \<and> sid \<in> set ids) \<or> localId x \<in> set ids)" for x
    by (simp add: matchesIds_def split: option.split)
  show ?thesis
    unfolding Let_def state_messages_read [OF assms]
    by (auto simp add: bucket_mapBucket dom_mapBucket mapBucket_other m)
qed

theorem C5_messages_read_witness:
  "isMounted (hydrationLoaded
       [chatMsg ''l1'' (Some ''s1'') ''dm:alice:bob'' ''alice'' ''bob'' ''one'' 10 Sent,
        chatMsg ''l2'' None ''dm:alice:bob'' ''alice'' ''bob'' ''two'' 20 Delivered,
        chatMsg ''l3'' (Some ''s3'') ''dm:alice:bob'' ''alice'' ''bob'' ''three'' 30 Sent]
       initialHook)
   \<and> map status (bucket (messages (state (onmessage ''alice''
        (Some (Messages_read ''dm:alice:bob'' [''s1'', ''l2''] ''bob''))
        (hydrationLoaded
          [chatMsg ''l1'' (Some ''s1'') ''dm:alice:bob'' ''alice'' ''bob'' ''one'' 10 Sent,
           chatMsg ''l2'' None ''dm:alice:bob'' ''alice'' ''bob'' ''two'' 20 Delivered,
           chatMsg ''l3'' (Some ''s3'') ''dm:alice:bob'' ''alice'' ''bob'' ''three'' 30 Sent]
          initialHook)))) ''dm:alice:bob'')
     = [Read, Read, Sent]"
  using C5_messages_read [of "hydrationLoaded
       [chatMsg ''l1'' (Some ''s1'') ''dm:alice:bob'' ''alice'' ''bob'' ''one'' 10 Sent,
        chatMsg ''l2'' None ''dm:alice:bob'' ''alice'' ''bob'' ''two'' 20 Delivered,
        chatMsg ''l3'' (Some ''s3'') ''dm:alice:bob'' ''alice'' ''bob'' ''three'' 30 Sent]
       initialHook"
       "''alice''" "''dm:alice:bob''" "[''s1'', ''l2'']" "''bob''"]
  by (simp add: hydrationLoaded_def onmessage_def dispatch_def initialHook_def initialState_def
      chatMsg_def hydrateOne_def bucket_def sortBuckets_def mapBucket_def matchesIds_def Let_def)

section \<open>Optimistic send and its acknowledgment\<close>

text \<open>
  Claim C6. On a mounted hook of user \<open>me\<close> with an open socket, send a text that does
  not trim to empty under a \<open>localId\<close> that is new in the conversation; then receive
  \<^verbatim>\<open>message_sent\<close> for that \<open>localId\<close>, the server's message naming the same
  conversation. After the send the conversation holds exactly one message with that
  \<open>localId\<close>, at status \<open>Sending\<close>; after the acknowledgment it holds exactly one, the
  same message with \<open>serverId\<close> set to the frame's message id, status \<open>Sent\<close> and the
  server's timestamp, and no message was added. For any hook, a \<^verbatim>\<open>message_sent\<close> whose
  \<open>localId\<close> (the empty string when the frame has none) is not in the conversation it
  names leaves the hook, and so its state, unchanged.
\<close>

theorem C6_send_then_ack:
  assumes "isMounted h" and "wsRef h = Some WS_OPEN" and "me \<noteq> []" and "trim txt \<noteq> []"
    and "\<not> hasLocalId uuid (bucket (messages (state h)) (dmChatId me receiver))"
    and "wireChatId srv = dmChatId me receiver"
  shows "(let cid = dmChatId me receiver;
              h1 = sendMessage (Some me) receiver txt uuid now h;
              h2 = onmessage me (Some (Message_sent (Some uuid) srv)) h1;
              optimisticMsg =
                \<lparr>localId = uuid, serverId = None, chatId = cid, senderUsername = me,
                 receiverUsername = receiver, msgText = trim txt, timestamp = now,
                 status = Sending\<rparr>
          in filter (\<lambda>m. localId m = uuid) (bucket (messages (state h1)) cid) = [optimisticMsg]
           \<and> filter (\<lambda>m. localId m = uuid) (bucket (messages (state h2)) cid)
               = [optimisticMsg\<lparr>serverId := Some (wireId srv), status := Sent,
                                 timestamp := wireTimestamp srv\<rparr>]
           \<and> length (bucket (messages (state h2)) cid)
               = Suc (length (bucket (messages (state h)) cid)))
       \<and> (\<forall>h0 lid srv0.
             \<not> hasLocalId (case lid of None \<Rightarrow> [] | Some l \<Rightarrow> l)
                 (bucket (messages (state h0)) (wireChatId srv0))
             \<longrightarrow> onmessage me (Some (Message_sent lid srv0)) h0 = h0)"
proof -
  let ?cid = "dmChatId me receiver"
  let ?b = "bucket (messages (state h)) ?cid"
  let ?opt = "\<lparr>localId = uuid, serverId = None, chatId = ?cid, senderUsername = me,
                 receiverUsername = receiver, msgText = trim txt, timestamp = now,
                 status = Sending\<rparr>"
  let ?h1 = "sendMessage (Some me) receiver txt uuid now h"
  let ?h2 = "onmessage me (Some (Message_sent (Some uuid) srv)) ?h1"
  have b1: "bucket (messages (state ?h1)) ?cid = ?b @ [?opt]"
    using assms(2-5) by (simp add: sendMessage_def Let_def dispatch_def bucket_def)
  have m1: "isMounted ?h1"
    using assms(1-5) by (simp add: sendMessage_def Let_def dispatch_def)
  have none: "filter (\<lambda>m. localId m = uuid) ?b = []"
    using assms(5) by (rule filter_no_localId)
  have f1: "filter (\<lambda>m. localId m = uuid) (bucket (messages (state ?h1)) ?cid) = [?opt]"
    by (simp add: b1 none)
  let ?f = "\<lambda>m. if localId m = uuid
             then m\<lparr>serverId := Some (wireId srv), status := Sent,
                    timestamp := wireTimestamp srv\<rparr>
             else m"
  have b2: "bucket (messages (state ?h2)) ?cid = map ?f (?b @ [?opt])"
    by (simp add: state_message_sent [OF m1] bucket_mapBucket assms(6) b1)
  have keep: "map ?f ?b = ?b"
    using assms(5) by (intro map_idI) (auto simp add: hasLocalId_def list_ex_iff)
  have f2: "filter (\<lambda>m. localId m = uuid) (bucket (messages (state ?h2)) ?cid)
               = [?opt\<lparr>serverId := Some (wireId srv), status := Sent,
                                 timestamp := wireTimestamp srv\<rparr>]"
    unfolding b2 map_append keep by (simp add: none)
  have len: "length (bucket (messages (state ?h2)) ?cid) = Suc (length ?b)"
    by (simp add: b2)
  from f1 f2 len message_sent_unmatched show ?thesis
    unfolding Let_def by blast
qed

theorem C6_send_then_ack_witness:
  "isMounted openHook \<and> wsRef openHook = Some WS_OPEN \<and> trim (ascii ''  hi '') \<noteq> []
   \<and> \<not> hasLocalId ''u-1'' (bucket (messages (state openHook)) (dmChatId ''alice'' ''bob''))
   \<and> bucket (messages (state (onmessage ''alice''
          (Some (Message_sent (Some ''u-1'')
             (wire ''srv1'' ''dm:alice:bob'' ''alice'' ''bob'' ''hi'' 2000)))
          (sendMessage (Some ''alice'') ''bob'' (ascii ''  hi '') ''u-1'' 1000 openHook))))
        ''dm:alice:bob''
     = [chatMsg ''u-1'' (Some ''srv1'') ''dm:alice:bob'' ''alice'' ''bob'' ''hi'' 2000 Sent]"
proof -
  have hyp: "isMounted openHook" "wsRef openHook = Some WS_OPEN" "''alice'' \<noteq> []"
    "trim (ascii ''  hi '') \<noteq> []"
    "\<not> hasLocalId ''u-1'' (bucket (messages (state openHook)) (dmChatId ''alice'' ''bob''))"
    "wireChatId (wire ''srv1'' ''dm:alice:bob'' ''alice'' ''bob'' ''hi'' 2000)
       = dmChatId ''alice'' ''bob''"
    by (simp_all add: openHook_eval initialHook_def initialState_def trim_hi dm_alice_bob
        bucket_def hasLocalId_def wire_def)
  from C6_send_then_ack [OF hyp, of 1000]
  have "filter (\<lambda>m. localId m = ''u-1'') (bucket (messages (state (onmessage ''alice''
          (Some (Message_sent (Some ''u-1'')
             (wire ''srv1'' ''dm:alice:bob'' ''alice'' ''bob'' ''hi'' 2000)))
          (sendMessage (Some ''alice'') ''bob'' (ascii ''  hi '') ''u-1'' 1000 openHook))))
        ''dm:alice:bob'')
     = [chatMsg ''u-1'' (Some ''srv1'') ''dm:alice:bob'' ''alice'' ''bob'' ''hi'' 2000 Sent]"
    by (simp add: Let_def dm_alice_bob trim_hi chatMsg_def wire_def)
  moreover have "bucket (messages (state (onmessage ''alice''
          (Some (Message_sent (Some ''u-1'')
             (wire ''srv1'' ''dm:alice:bob'' ''alice'' ''bob'' ''hi'' 2000)))
          (sendMessage (Some ''alice'') ''bob'' (ascii ''  hi '') ''u-1'' 1000 openHook))))
        ''dm:alice:bob''
     = [chatMsg ''u-1'' (Some ''srv1'') ''dm:alice:bob'' ''alice'' ''bob'' ''hi'' 2000 Sent]"
    by (simp add: openHook_eval initialHook_def initialState_def sendMessage_def onmessage_def
        dispatch_def trim_hi dm_alice_bob bucket_def hasLocalId_def mapBucket_def wire_def
        chatMsg_def Let_def)
  ultimately show ?thesis using hyp by simp
qed

section \<open>Sending\<close>

text \<open>
  Claim C10. If the text trims to the empty string, or the hook holds no socket or one
  that is not open, \<^verbatim>\<open>sendMessage\<close> returns the hook as it was: same snapshot, nothing
  added to the frames sent. Otherwise, in every hook reached from the initial one, the
  user name is set, and when the generated \<open>localId\<close> is new in the conversation the
  result is the hook with the optimistic message (trimmed text, status \<open>Sending\<close>, that
  \<open>localId\<close>) appended to the conversation and one \<^verbatim>\<open>send_message\<close> frame with the trimmed
  text sent.
\<close>

theorem C10_sendMessage:
  "(trim txt = [] \<or> wsRef h \<noteq> Some WS_OPEN
      \<longrightarrow> sendMessage myUsername receiver txt uuid now h = h)
   \<and> (h = run token myUsername initialHook evs \<and> wsRef h = Some WS_OPEN \<and> trim txt \<noteq> []
      \<longrightarrow> (\<exists>me. myUsername = Some me \<and> me \<noteq> [] \<and>
            (\<not> hasLocalId uuid (bucket (messages (state h)) (dmChatId me receiver)) \<longrightarrow>
             sendMessage myUsername receiver txt uuid now h =
               h\<lparr>state := (state h)\<lparr>messages := (messages (state h))
                    (dmChatId me receiver \<mapsto>
                       bucket (messages (state h)) (dmChatId me receiver) @
                       [\<lparr>localId = uuid, serverId = None, chatId = dmChatId me receiver,
                         senderUsername = me, receiverUsername = receiver,
                         msgText = trim txt, timestamp = now, status = Sending\<rparr>])\<rparr>,
                 outbox := outbox h @ [Send_message receiver (trim txt) uuid]\<rparr>)))"
proof (intro conjI impI)
  assume "trim txt = [] \<or> wsRef h \<noteq> Some WS_OPEN"
  then show "sendMessage myUsername receiver txt uuid now h = h"
    by (auto simp add: sendMessage_def Let_def split: option.split)
next
  assume a: "h = run token myUsername initialHook evs \<and> wsRef h = Some WS_OPEN \<and> trim txt \<noteq> []"
  then have "wsRef (run token myUsername initialHook evs) \<noteq> None" by auto
  then have "truthy myUsername" using wsRef_run [of token myUsername evs] by blast
  then obtain me where me: "myUsername = Some me" "me \<noteq> []"
    by (auto simp add: truthy_def split: option.splits)
  have "\<not> hasLocalId uuid (bucket (messages (state h)) (dmChatId me receiver)) \<longrightarrow>
             sendMessage myUsername receiver txt uuid now h =
               h\<lparr>state := (state h)\<lparr>messages := (messages (state h))
                    (dmChatId me receiver \<mapsto>
                       bucket (messages (state h)) (dmChatId me receiver) @
                       [\<lparr>localId = uuid, serverId = None, chatId = dmChatId me receiver,
                         senderUsername = me, receiverUsername = receiver,
                         msgText = trim txt, timestamp = now, status = Sending\<rparr>])\<rparr>,
                 outbox := outbox h @ [Send_message receiver (trim txt) uuid]\<rparr>"
  proof -
    from a have ws: "wsRef h = Some WS_OPEN" and tr: "trim txt \<noteq> []" by blast+
    show ?thesis using ws tr me by (simp add: sendMessage_def Let_def dispatch_def)
  qed
  with me show "\<exists>me. myUsername = Some me \<and> me \<noteq> [] \<and>
            (\<not> hasLocalId uuid (bucket (messages (state h)) (dmChatId me receiver)) \<longrightarrow>
             sendMessage myUsername receiver txt uuid now h =
               h\<lparr>state := (state h)\<lparr>messages := (messages (state h))
                    (dmChatId me receiver \<mapsto>
                       bucket (messages (state h)) (dmChatId me receiver) @
                       [\<lparr>localId = uuid, serverId = None, chatId = dmChatId me receiver,
                         senderUsername = me, receiverUsername = receiver,
                         msgText = trim txt, timestamp = now, status = Sending\<rparr>])\<rparr>,
                 outbox := outbox h @ [Send_message receiver (trim txt) uuid]\<rparr>)"
    by blast
qed

theorem C10_sendMessage_witness:
  "sendMessage (Some ''alice'') ''bob'' (ascii ''   '') ''u-1'' 1000 openHook = openHook
   \<and> sendMessage (Some ''alice'') ''bob'' [160, 12288] ''u-1'' 1000 openHook = openHook
   \<and> sendMessage (Some ''alice'') ''bob'' (ascii ''  hi '') ''u-1'' 1000 initialHook = initialHook
   \<and> sendMessage (Some ''alice'') ''bob'' (ascii ''  hi '') ''u-1'' 1000 openHook
     = openHook\<lparr>state := (state openHook)\<lparr>messages :=
           [''dm:alice:bob'' \<mapsto> [chatMsg ''u-1'' None ''dm:alice:bob'' ''alice'' ''bob'' ''hi'' 1000 Sending]]\<rparr>,
         outbox := [Send_message ''bob'' (ascii ''hi'') ''u-1'']\<rparr>"
proof -
  have blank: "sendMessage (Some ''alice'') ''bob'' (ascii ''   '') ''u-1'' 1000 openHook = openHook"
    using C10_sendMessage [of "ascii ''   ''" openHook "Some ''alice''" "''bob''" "''u-1''" 1000]
    by (simp add: trim_blank)
  have nbsp: "sendMessage (Some ''alice'') ''bob'' [160, 12288] ''u-1'' 1000 openHook = openHook"
    using C10_sendMessage [of "[160, 12288]" openHook "Some ''alice''" "''bob''" "''u-1''" 1000]
    by (simp add: trim_nbsp)
  have closed: "sendMessage (Some ''alice'') ''bob'' (ascii ''  hi '') ''u-1'' 1000 initialHook = initialHook"
    using C10_sendMessage [of "ascii ''  hi ''" initialHook "Some ''alice''" "''bob''" "''u-1''" 1000]
    by (simp add: initialHook_def)
  have r: "openHook = run (Some ''jwt'') (Some ''alice'') initialHook
                        [Ev_connect, Ev_readyState WS_OPEN, Ev_open]"
    by (simp add: openHook_def)
  have ws: "wsRef openHook = Some WS_OPEN"
    by (simp add: openHook_eval initialHook_def)
  have tr: "trim (ascii ''  hi '') \<noteq> []"
    by (simp add: trim_hi)
  have fresh: "\<not> hasLocalId ''u-1'' (bucket (messages (state openHook)) (dmChatId ''alice'' ''bob''))"
    by (simp add: openHook_eval initialHook_def initialState_def bucket_def hasLocalId_def)
  from C10_sendMessage [of "ascii ''  hi ''" openHook "Some ''alice''" "''bob''" "''u-1''" 1000
        "Some ''jwt''" "[Ev_connect, Ev_readyState WS_OPEN, Ev_open]"] r ws tr
  obtain me where me: "Some ''alice'' = Some me"
    and imp: "\<not> hasLocalId ''u-1'' (bucket (messages (state openHook)) (dmChatId me ''bob'')) \<longrightarrow>
       sendMessage (Some ''alice'') ''bob'' (ascii ''  hi '') ''u-1'' 1000 openHook =
         openHook\<lparr>state := (state openHook)\<lparr>messages := (messages (state openHook))
              (dmChatId me ''bob'' \<mapsto>
                 bucket (messages (state openHook)) (dmChatId me ''bob'') @
                 [\<lparr>localId = ''u-1'', serverId = None, chatId = dmChatId me ''bob'',
                   senderUsername = me, receiverUsername = ''bob'',
                   msgText = trim (ascii ''  hi ''), timestamp = 1000, status = Sending\<rparr>])\<rparr>,
           outbox := outbox openHook @ [Send_message ''bob'' (trim (ascii ''  hi '')) ''u-1'']\<rparr>"
    by blast
  from me have me_eq: "me = ''alice''" by simp
  from imp fresh have "sendMessage (Some ''alice'') ''bob'' (ascii ''  hi '') ''u-1'' 1000 openHook =
         openHook\<lparr>state := (state openHook)\<lparr>messages := (messages (state openHook))
              (dmChatId ''alice'' ''bob'' \<mapsto>
                 bucket (messages (state openHook)) (dmChatId ''alice'' ''bob'') @
                 [\<lparr>localId = ''u-1'', serverId = None, chatId = dmChatId ''alice'' ''bob'',
                   senderUsername = ''alice'', receiverUsername = ''bob'',
                   msgText = trim (ascii ''  hi ''), timestamp = 1000, status = Sending\<rparr>])\<rparr>,
           outbox := outbox openHook @ [Send_message ''bob'' (trim (ascii ''  hi '')) ''u-1'']\<rparr>"
    unfolding me_eq by blast
  also have "\<dots> = openHook\<lparr>state := (state openHook)\<lparr>messages :=
           [''dm:alice:bob'' \<mapsto> [chatMsg ''u-1'' None ''dm:alice:bob'' ''alice'' ''bob'' ''hi'' 1000 Sending]]\<rparr>,
         outbox := [Send_message ''bob'' (ascii ''hi'') ''u-1'']\<rparr>"
    by (simp add: openHook_eval initialHook_def initialState_def trim_hi dm_alice_bob
        bucket_def chatMsg_def)
  finally have sent: "sendMessage (Some ''alice'') ''bob'' (ascii ''  hi '') ''u-1'' 1000 openHook
     = openHook\<lparr>state := (state openHook)\<lparr>messages :=
           [''dm:alice:bob'' \<mapsto> [chatMsg ''u-1'' None ''dm:alice:bob'' ''alice'' ''bob'' ''hi'' 1000 Sending]]\<rparr>,
         outbox := [Send_message ''bob'' (ascii ''hi'') ''u-1'']\<rparr>" .
  from blank nbsp closed sent show ?thesis by simp
qed

section \<open>Connection manager: close codes\<close>

lemma onclose_auth:
  assumes "isMounted h" and "code = 4001 \<or> code = 1006"
  shows "onclose code h = dispatch (AUTH_FAILED authFailedError) (h\<lparr>pingTimer := False\<rparr>)"
  using assms by (auto simp add: onclose_def Let_def)

text \<open>
  Claim C7, as amended. On a mounted hook, a close with code 4001 or 1006 sets the
  connection status to \<open>Auth_failed\<close> with the authentication error and schedules no
  reconnect (the retry counter is untouched). A close with any other code besides 1000
  and 1001 that is not self-initiated schedules a retry, with the backoff delay of the
  current counter, as long as the counter is below 6; once six retries have been
  scheduled it schedules nothing, leaves the status at \<open>Disconnected\<close> and surfaces the
  give-up error.
\<close>

theorem C7_close_codes:
  assumes "isMounted h"
  shows "(code = 4001 \<or> code = 1006 \<longrightarrow>
            connectionStatus (state (onclose code h)) = Auth_failed
          \<and> error (state (onclose code h)) = Some authFailedError
          \<and> scheduledReconnects (onclose code h) = scheduledReconnects h
          \<and> reconnectAttempts (onclose code h) = reconnectAttempts h)
       \<and> (code \<noteq> 4001 \<and> code \<noteq> 1006 \<and> code \<noteq> 1000 \<and> code \<noteq> 1001 \<and> \<not> intentionalClose h \<longrightarrow>
            (reconnectAttempts h < 6 \<longrightarrow>
               scheduledReconnects (onclose code h)
                 = scheduledReconnects h @ [min (1000 * 2 ^ reconnectAttempts h) 30000]
             \<and> reconnectAttempts (onclose code h) = Suc (reconnectAttempts h)
             \<and> connectionStatus (state (onclose code h)) = Reconnecting)
          \<and> (6 \<le> reconnectAttempts h \<longrightarrow>
               scheduledReconnects (onclose code h) = scheduledReconnects h
             \<and> connectionStatus (state (onclose code h)) = Disconnected
             \<and> error (state (onclose code h)) = Some giveUpError))"
proof (intro conjI impI)
  assume c: "code = 4001 \<or> code = 1006"
  note eq = onclose_auth [OF assms c]
  show "connectionStatus (state (onclose code h)) = Auth_failed"
    by (simp add: eq dispatch_def)
  show "error (state (onclose code h)) = Some authFailedError"
    by (simp add: eq dispatch_def)
  show "scheduledReconnects (onclose code h) = scheduledReconnects h"
    by (simp add: eq dispatch_def)
  show "reconnectAttempts (onclose code h) = reconnectAttempts h"
    by (simp add: eq dispatch_def)
next
  assume c: "code \<noteq> 4001 \<and> code \<noteq> 1006 \<and> code \<noteq> 1000 \<and> code \<noteq> 1001 \<and> \<not> intentionalClose h"
  let ?d = "dispatch DISCONNECTED (h\<lparr>pingTimer := False\<rparr>)"
  from c assms have eq: "onclose code h = scheduleReconnect ?d"
    by (intro onclose_retryable) simp_all
  have d: "isMounted ?d" "reconnectAttempts ?d = reconnectAttempts h"
    "scheduledReconnects ?d = scheduledReconnects h"
    using assms by (simp_all add: dispatch_def)
  {
    assume lt: "reconnectAttempts h < 6"
    then have lt': "reconnectAttempts ?d < 6" using d by simp
    show "scheduledReconnects (onclose code h)
                 = scheduledReconnects h @ [min (1000 * 2 ^ reconnectAttempts h) 30000]"
      using scheduleReconnect_retry(1) [OF d(1) lt'] d by (simp add: eq backoffDelay_def)
    show "reconnectAttempts (onclose code h) = Suc (reconnectAttempts h)"
      using scheduleReconnect_retry(2) [OF d(1) lt'] d by (simp add: eq)
    show "connectionStatus (state (onclose code h)) = Reconnecting"
      using d(1) lt' by (simp add: eq scheduleReconnect_def MAX_RECONNECT_ATTEMPTS_def
          dispatch_def Let_def)
  }
  {
    assume ge: "6 \<le> reconnectAttempts h"
    then have ge': "6 \<le> reconnectAttempts ?d" using d by simp
    note ex = scheduleReconnect_exhausted [OF d(1) ge']
    show "scheduledReconnects (onclose code h) = scheduledReconnects h"
      unfolding eq ex by (simp add: dispatch_def)
    show "connectionStatus (state (onclose code h)) = Disconnected"
      unfolding eq ex by (simp add: dispatch_def)
    show "error (state (onclose code h)) = Some giveUpError"
      unfolding eq ex by (simp add: dispatch_def)
  }
qed

theorem C7_close_codes_witness:
  "connectionStatus (state (onclose 4001 openHook)) = Auth_failed
   \<and> scheduledReconnects (onclose 4001 openHook) = []
   \<and> connectionStatus (state (onclose 1006 openHook)) = Auth_failed
   \<and> scheduledReconnects (onclose 1006 openHook) = []
   \<and> scheduledReconnects (onclose 1011 openHook) = [1000]
   \<and> connectionStatus (state (onclose 1011 openHook)) = Reconnecting
   \<and> scheduledReconnects (onclose 1011 (openHook\<lparr>reconnectAttempts := 6\<rparr>)) = []
   \<and> error (state (onclose 1011 (openHook\<lparr>reconnectAttempts := 6\<rparr>))) = Some giveUpError"
proof -
  have o: "isMounted openHook" "\<not> intentionalClose openHook" "reconnectAttempts openHook = 0"
    "scheduledReconnects openHook = []"
    by (simp_all add: openHook_eval initialHook_def)
  have o6: "isMounted (openHook\<lparr>reconnectAttempts := 6\<rparr>)"
    "\<not> intentionalClose (openHook\<lparr>reconnectAttempts := 6\<rparr>)"
    "reconnectAttempts (openHook\<lparr>reconnectAttempts := 6\<rparr>) = 6"
    "scheduledReconnects (openHook\<lparr>reconnectAttempts := 6\<rparr>) = []"
    using o by simp_all
  show ?thesis
    using C7_close_codes [OF o(1), of 4001] C7_close_codes [OF o(1), of 1006]
      C7_close_codes [OF o(1), of 1011] C7_close_codes [OF o6(1), of 1011] o o6
    by simp
qed

text \<open>
  Claim C7 as stated fails in its second half: after six failed attempts the next
  attempt closes with code 1011, not self-initiated, and no retry is scheduled.
\<close>

theorem C7_exhausted_close_not_retried:
  "isMounted (connect (Some ''jwt'') (Some ''alice'')
      ((failedAttempt (Some ''jwt'') (Some ''alice'') 1011 ^^ 6) initialHook))
   \<and> \<not> intentionalClose (connect (Some ''jwt'') (Some ''alice'')
      ((failedAttempt (Some ''jwt'') (Some ''alice'') 1011 ^^ 6) initialHook))
   \<and> scheduledReconnects (connect (Some ''jwt'') (Some ''alice'')
      ((failedAttempt (Some ''jwt'') (Some ''alice'') 1011 ^^ 6) initialHook))
     = [1000, 2000, 4000, 8000, 16000, 30000]
   \<and> scheduledReconnects (onclose 1011 (connect (Some ''jwt'') (Some ''alice'')
      ((failedAttempt (Some ''jwt'') (Some ''alice'') 1011 ^^ 6) initialHook)))
     = [1000, 2000, 4000, 8000, 16000, 30000]
   \<and> connectionStatus (state (onclose 1011 (connect (Some ''jwt'') (Some ''alice'')
      ((failedAttempt (Some ''jwt'') (Some ''alice'') 1011 ^^ 6) initialHook))))
     = Disconnected
   \<and> error (state (onclose 1011 (connect (Some ''jwt'') (Some ''alice'')
      ((failedAttempt (Some ''jwt'') (Some ''alice'') 1011 ^^ 6) initialHook))))
     = Some giveUpError"
proof -
  let ?h6 = "(failedAttempt (Some ''jwt'') (Some ''alice'') 1011 ^^ 6) initialHook"
  have t: "truthy (Some ''jwt'')" "truthy (Some ''alice'')" by (simp_all add: truthy_def)
  have m: "isMounted initialHook" "reconnectAttempts initialHook = 0"
    "scheduledReconnects initialHook = []"
    by (simp_all add: initialHook_def)
  have c: "(1011::nat) \<noteq> 4001" "(1011::nat) \<noteq> 1006" "(1011::nat) \<noteq> 1000" "(1011::nat) \<noteq> 1001"
    by simp_all
  have six: "isMounted ?h6" "reconnectAttempts ?h6 = 6"
    "scheduledReconnects ?h6 = [1000, 2000, 4000, 8000, 16000, 30000]"
    using failedAttempt_iterate [OF t m(1) c m(2), of 6]
    by (simp_all add: m(3) backoffDelay_first_six)
  have ge: "6 \<le> reconnectAttempts ?h6" using six(2) by simp
  have fa: "failedAttempt (Some ''jwt'') (Some ''alice'') 1011 ?h6
              = onclose 1011 (connect (Some ''jwt'') (Some ''alice'') ?h6)"
    by (simp add: failedAttempt_def)
  note ex = failedAttempt_exhausted [OF t six(1) c ge, unfolded fa]
  show ?thesis
    using ex(1,4,5) six connect_not_intentional [OF t six(1)]
    by (simp add: connect_refs)
qed

section \<open>Merging inbound messages\<close>

lemma reducer_MESSAGE_ADDED:
  "reducer s (MESSAGE_ADDED p) = s\<lparr>messages := bulkAddOne (messages s) p\<rparr>"
  by (simp add: bulkAddOne_def Let_def)

lemma foldl_MESSAGE_ADDED:
  "foldl (\<lambda>s m. reducer s (MESSAGE_ADDED m)) s ms = s\<lparr>messages := foldl bulkAddOne (messages s) ms\<rparr>"
  by (induction ms arbitrary: s) (simp_all add: reducer_MESSAGE_ADDED del: reducer.simps)

lemma hasLocalId_bulkAddOne_mono:
  "hasLocalId l (bucket m k) \<Longrightarrow> hasLocalId l (bucket (bulkAddOne m x) k)"
  by (auto simp add: bucket_bulkAddOne hasLocalId_def)

lemma hasLocalId_bulkAddOne_self:
  "hasLocalId (localId x) (bucket (bulkAddOne m x) (chatId x))"
  by (auto simp add: bucket_bulkAddOne hasLocalId_def)

lemma hasLocalId_foldl_mono:
  "hasLocalId l (bucket m k) \<Longrightarrow> hasLocalId l (bucket (foldl bulkAddOne m ms) k)"
  by (induction ms arbitrary: m) (simp_all add: hasLocalId_bulkAddOne_mono)

lemma hasLocalId_foldl_all:
  "x \<in> set ms \<Longrightarrow> hasLocalId (localId x) (bucket (foldl bulkAddOne m ms) (chatId x))"
proof (induction ms arbitrary: m)
  case Nil
  then show ?case by simp
next
  case (Cons y ys)
  show ?case
  proof (cases "x = y")
    case True
    then show ?thesis
      by (simp add: hasLocalId_foldl_mono hasLocalId_bulkAddOne_self)
  next
    case False
    with Cons show ?thesis by simp
  qed
qed

lemma bulkAddOne_present: 
  "hasLocalId (localId x) (bucket m (chatId x)) \<Longrightarrow> bulkAddOne m x = m"
  by (simp add: bulkAddOne_def Let_def)

lemma foldl_bulkAddOne_present:
  "(\<And>x. x \<in> set ms \<Longrightarrow> hasLocalId (localId x) (bucket m (chatId x)))
     \<Longrightarrow> foldl bulkAddOne m ms = m"
  by (induction ms) (simp_all add: bulkAddOne_present)

lemma hasLocalId_sortBuckets:
  "hasLocalId l (bucket (sortBuckets m) k) = hasLocalId l (bucket m k)"
  by (simp add: bucket_sortBuckets hasLocalId_set)

lemma sortBuckets_idem: "sortBuckets (sortBuckets m) = sortBuckets m"
proof
  fix k
  show "sortBuckets (sortBuckets m) k = sortBuckets m k"
    by (cases "m k") (simp_all add: sortBuckets_def sort_key_id_if_sorted)
qed

lemma foldl_bulkAddOne_idem:
  "foldl bulkAddOne (foldl bulkAddOne m ms) ms = foldl bulkAddOne m ms"
  by (rule foldl_bulkAddOne_present) (rule hasLocalId_foldl_all)

lemma bulk_add_idem:
  "sortBuckets (foldl bulkAddOne (sortBuckets (foldl bulkAddOne m ms)) ms)
     = sortBuckets (foldl bulkAddOne m ms)"
proof -
  have "foldl bulkAddOne (sortBuckets (foldl bulkAddOne m ms)) ms
          = sortBuckets (foldl bulkAddOne m ms)"
    by (rule foldl_bulkAddOne_present) (simp add: hasLocalId_sortBuckets hasLocalId_foldl_all)
  then show ?thesis by (simp add: sortBuckets_idem)
qed

lemma count_localId_one:
  "distinct (map f xs) \<Longrightarrow> y \<in> f ` set xs \<Longrightarrow> length (filter (\<lambda>x. f x = y) xs) = 1"
proof (induction xs)
  case Nil
  then show ?case by simp
next
  case (Cons a xs)
  show ?case
  proof (cases "f a = y")
    case True
    with Cons.prems have "\<forall>x\<in>set xs. f x \<noteq> y"
      by (auto simp add: image_iff)
    then have "filter (\<lambda>x. f x = y) xs = []"
      by (simp add: filter_empty_conv)
    with True show ?thesis by simp
  next
    case False
    with Cons show ?thesis by auto
  qed
qed

lemma state_new_message:
  "isMounted h \<Longrightarrow> state (onmessage me (Some (New_message w)) h)
     = (state h)\<lparr>messages := bulkAddOne (messages (state h)) (incomingMsg me w)\<rparr>"
  by (simp add: onmessage_def dispatch_fields reducer_MESSAGE_ADDED del: reducer.simps)

lemma state_pending_messages:
  "isMounted h \<Longrightarrow> state (onmessage me (Some (Pending_messages ws ids)) h)
     = (state h)\<lparr>messages := foldl bulkAddOne (messages (state h)) (map (incomingMsg me) ws)\<rparr>"
  by (simp add: onmessage_def Let_def state_foldl_dispatch foldl_MESSAGE_ADDED del: reducer.simps)

lemma state_history:
  "isMounted h \<Longrightarrow> state (onmessage me (Some (History cid peer ws)) h)
     = (state h)\<lparr>messages := sortBuckets (foldl bulkAddOne (messages (state h))
          (map (historyMsg me cid peer) ws))\<rparr>"
  by (simp add: onmessage_def dispatch_fields)

lemma isMounted_onmessage: "isMounted (onmessage me d h) = isMounted h"
proof (cases d)
  case None
  then show ?thesis by (simp add: onmessage_def)
next
  case (Some f)
  then show ?thesis
    by (cases f) (simp_all add: onmessage_def dispatch_fields foldl_dispatch_fields Let_def)
qed


text \<open>
  Claim C9. Take a mounted hook whose buckets hold each \<open>localId\<close> at most once (as every
  reachable snapshot does, by \<open>foldl_reducer_distinct\<close>). For each inbound message event
  (\<^verbatim>\<open>new_message\<close>, \<^verbatim>\<open>pending_messages\<close>, \<^verbatim>\<open>history\<close>), handling the same frame a second
  time leaves the state exactly as it was after the first time, and every message of
  the frame is then in its conversation bucket exactly once.
\<close>

theorem C9_idempotent_merge:
  assumes "isMounted h"
    and "\<And>k. distinct (map localId (bucket (messages (state h)) k))"
  shows "(let h1 = onmessage me (Some (New_message w)) h;
              h2 = onmessage me (Some (New_message w)) h1
          in state h2 = state h1
           \<and> length (filter (\<lambda>x. localId x = wireId w)
                 (bucket (messages (state h2)) (wireChatId w))) = 1)
       \<and> (let h1 = onmessage me (Some (Pending_messages ws ids)) h;
               h2 = onmessage me (Some (Pending_messages ws ids)) h1
           in state h2 = state h1
            \<and> (\<forall>w\<in>set ws. length (filter (\<lambda>x. localId x = wireId w)
                   (bucket (messages (state h2)) (wireChatId w))) = 1))
       \<and> (let h1 = onmessage me (Some (History cid peer ws)) h;
               h2 = onmessage me (Some (History cid peer ws)) h1
           in state h2 = state h1
            \<and> (\<forall>w\<in>set ws. length (filter (\<lambda>x. localId x = wireId w)
                   (bucket (messages (state h2)) cid)) = 1))"
proof -
  let ?m = "messages (state h)"
  have one: "length (filter (\<lambda>x. localId x = localId y) (bucket M (chatId y))) = 1"
    if "\<And>k. distinct (map localId (bucket M k))" and "hasLocalId (localId y) (bucket M (chatId y))"
    for M y
    using that by (intro count_localId_one) (simp_all add: hasLocalId_set)
  \<comment> \<open>new_message\<close>
  let ?n1 = "onmessage me (Some (New_message w)) h"
  let ?n2 = "onmessage me (Some (New_message w)) ?n1"
  let ?x = "incomingMsg me w"
  have mn1: "isMounted ?n1" using assms(1) by (simp add: isMounted_onmessage)
  have sn1: "state ?n1 = (state h)\<lparr>messages := bulkAddOne ?m ?x\<rparr>"
    by (rule state_new_message [OF assms(1)])
  have "bulkAddOne (bulkAddOne ?m ?x) ?x = bulkAddOne ?m ?x"
    by (rule bulkAddOne_present) (rule hasLocalId_bulkAddOne_self)
  then have sn2: "state ?n2 = state ?n1"
    by (simp add: state_new_message [OF mn1] sn1)
  have "length (filter (\<lambda>x. localId x = localId ?x)
                 (bucket (bulkAddOne ?m ?x) (chatId ?x))) = 1"
    by (rule one) (simp_all add: distinct_bulkAddOne assms(2) hasLocalId_bulkAddOne_self)
  then have cn: "length (filter (\<lambda>x. localId x = wireId w)
                 (bucket (messages (state ?n2)) (wireChatId w))) = 1"
    by (simp add: sn2 sn1 incomingMsg_def)
  \<comment> \<open>pending_messages\<close>
  let ?p1 = "onmessage me (Some (Pending_messages ws ids)) h"
  let ?p2 = "onmessage me (Some (Pending_messages ws ids)) ?p1"
  let ?ps = "map (incomingMsg me) ws"
  have mp1: "isMounted ?p1" using assms(1) by (simp add: isMounted_onmessage)
  have sp1: "state ?p1 = (state h)\<lparr>messages := foldl bulkAddOne ?m ?ps\<rparr>"
    by (rule state_pending_messages [OF assms(1)])
  have sp2: "state ?p2 = state ?p1"
    by (simp add: state_pending_messages [OF mp1] sp1 foldl_bulkAddOne_idem)
  have cp: "\<forall>w\<in>set ws. length (filter (\<lambda>x. localId x = wireId w)
                   (bucket (messages (state ?p2)) (wireChatId w))) = 1"
  proof
    fix v assume v: "v \<in> set ws"
    then have "incomingMsg me v \<in> set ?ps" by simp
    then have "hasLocalId (localId (incomingMsg me v))
                 (bucket (foldl bulkAddOne ?m ?ps) (chatId (incomingMsg me v)))"
      by (rule hasLocalId_foldl_all)
    then have "length (filter (\<lambda>x. localId x = localId (incomingMsg me v))
                 (bucket (foldl bulkAddOne ?m ?ps) (chatId (incomingMsg me v)))) = 1"
      by (intro one) (simp_all add: distinct_foldl_bulkAddOne assms(2))
    then show "length (filter (\<lambda>x. localId x = wireId v)
                   (bucket (messages (state ?p2)) (wireChatId v))) = 1"
      by (simp add: sp2 sp1 incomingMsg_def)
  qed
  \<comment> \<open>history\<close>
  let ?h1 = "onmessage me (Some (History cid peer ws)) h"
  let ?h2 = "onmessage me (Some (History cid peer ws)) ?h1"
  let ?hs = "map (historyMsg me cid peer) ws"
  have mh1: "isMounted ?h1" using assms(1) by (simp add: isMounted_onmessage)
  have sh1: "state ?h1 = (state h)\<lparr>messages := sortBuckets (foldl bulkAddOne ?m ?hs)\<rparr>"
    by (rule state_history [OF assms(1)])
  have sh2: "state ?h2 = state ?h1"
    by (simp add: state_history [OF mh1] sh1 bulk_add_idem)
  have ch: "\<forall>w\<in>set ws. length (filter (\<lambda>x. localId x = wireId w)
                   (bucket (messages (state ?h2)) cid)) = 1"
  proof
    fix v assume v: "v \<in> set ws"
    let ?y = "historyMsg me cid peer v"
    from v have "?y \<in> set ?hs" by simp
    then have "hasLocalId (localId ?y) (bucket (foldl bulkAddOne ?m ?hs) (chatId ?y))"
      by (rule hasLocalId_foldl_all)
    then have "length (filter (\<lambda>x. localId x = localId ?y)
                 (bucket (sortBuckets (foldl bulkAddOne ?m ?hs)) (chatId ?y))) = 1"
      by (intro one)
         (simp_all add: distinct_sortBuckets distinct_foldl_bulkAddOne assms(2)
            hasLocalId_sortBuckets)
    then show "length (filter (\<lambda>x. localId x = wireId v)
                   (bucket (messages (state ?h2)) cid)) = 1"
      by (simp add: sh2 sh1 historyMsg_def)
  qed
  from sn2 cn sp2 cp sh2 ch show ?thesis
    unfolding Let_def by blast
qed

theorem C9_idempotent_merge_witness:
  "isMounted openHook
   \<and> state (onmessage ''alice''
        (Some (New_message (wire ''m1'' ''dm:alice:bob'' ''bob'' ''alice'' ''hi'' 100)))
        (onmessage ''alice''
          (Some (New_message (wire ''m1'' ''dm:alice:bob'' ''bob'' ''alice'' ''hi'' 100)))
          openHook))
     = state (onmessage ''alice''
          (Some (New_message (wire ''m1'' ''dm:alice:bob'' ''bob'' ''alice'' ''hi'' 100)))
          openHook)
   \<and> bucket (messages (state (onmessage ''alice''
        (Some (New_message (wire ''m1'' ''dm:alice:bob'' ''bob'' ''alice'' ''hi'' 100)))
        (onmessage ''alice''
          (Some (New_message (wire ''m1'' ''dm:alice:bob'' ''bob'' ''alice'' ''hi'' 100)))
          openHook)))) ''dm:alice:bob''
     = [chatMsg ''m1'' None ''dm:alice:bob'' ''bob'' ''alice'' ''hi'' 100 Delivered]"
proof -
  have m: "isMounted openHook"
    by (simp add: openHook_eval initialHook_def)
  have d: "\<And>k. distinct (map localId (bucket (messages (state openHook)) k))"
    by (simp add: openHook_eval initialHook_def initialState_def bucket_def)
  from C9_idempotent_merge [OF m d, of "''alice''"
      "wire ''m1'' ''dm:alice:bob'' ''bob'' ''alice'' ''hi'' 100" "[]" "[]" "[]" "[]"]
  have same: "state (onmessage ''alice''
        (Some (New_message (wire ''m1'' ''dm:alice:bob'' ''bob'' ''alice'' ''hi'' 100)))
        (onmessage ''alice''
          (Some (New_message (wire ''m1'' ''dm:alice:bob'' ''bob'' ''alice'' ''hi'' 100)))
          openHook))
     = state (onmessage ''alice''
          (Some (New_message (wire ''m1'' ''dm:alice:bob'' ''bob'' ''alice'' ''hi'' 100)))
          openHook)"
    unfolding Let_def by (rule conjunct1 [OF conjunct1])
  have once: "bucket (messages (state (onmessage ''alice''
          (Some (New_message (wire ''m1'' ''dm:alice:bob'' ''bob'' ''alice'' ''hi'' 100)))
          openHook))) ''dm:alice:bob''
     = [chatMsg ''m1'' None ''dm:alice:bob'' ''bob'' ''alice'' ''hi'' 100 Delivered]"
    by (simp add: openHook_eval initialHook_def initialState_def onmessage_def dispatch_def
        incomingMsg_def wire_def chatMsg_def bucket_def hasLocalId_def Let_def)
  from m same once show ?thesis by simp
qed

section \<open>What one event does to the messages\<close>

lemma messages_scheduleReconnect:
  "messages (state (scheduleReconnect h)) = messages (state h)"
  by (simp add: scheduleReconnect_def dispatch_def Let_def)

lemma messages_onclose: "messages (state (onclose code h)) = messages (state h)"
  by (simp add: onclose_def dispatch_def Let_def messages_scheduleReconnect)

lemma messages_connect: "messages (state (connect token me h)) = messages (state h)"
  by (simp add: connect_def dispatch_def Let_def)

lemma messages_onopen: "messages (state (onopen h)) = messages (state h)"
  by (simp add: onopen_def dispatch_def)

lemma messages_foldl_dispatch_added:
  "messages (state (foldl (\<lambda>h' m. dispatch (MESSAGE_ADDED m) h') h ms))
     = foldl bulkAddOne (messages (state h)) ms"
  by (simp add: state_foldl_dispatch foldl_MESSAGE_ADDED del: reducer.simps)

lemma onframe_effect:
  "messagesEffect myUsername (Ev_message (Some f)) (messages (state h))
     (messages (state (onframe me f h)))"
proof (cases f)
  case (Message_sent lid srv)
  then show ?thesis by (simp add: dispatch_fields messagesEffect.acked)
next
  case (New_message w)
  have "messagesEffect myUsername (Ev_message (Some f)) (messages (state h))
          (foldl bulkAddOne (messages (state h)) [incomingMsg me w])"
    by (rule messagesEffect.added) (simp add: incomingMsg_def)
  with New_message show ?thesis
    by (simp add: dispatch_fields messages_MESSAGE_ADDED del: reducer.simps)
next
  case (Pending_messages ws ids)
  have "messagesEffect myUsername (Ev_message (Some f)) (messages (state h))
          (foldl bulkAddOne (messages (state h)) (map (incomingMsg me) ws))"
    by (rule messagesEffect.added) (simp add: incomingMsg_def)
  with Pending_messages show ?thesis
    by (simp add: Let_def messages_foldl_dispatch_added)
next
  case (History cid peer ws)
  have "messagesEffect myUsername (Ev_message (Some f)) (messages (state h))
          (sortBuckets (foldl bulkAddOne (messages (state h)) (map (historyMsg me cid peer) ws)))"
    by (rule messagesEffect.merged) (simp add: historyMsg_def)
  with History show ?thesis by (simp add: dispatch_fields)
next
  case (Messages_read c ids reader)
  then show ?thesis by (simp add: dispatch_fields messagesEffect.confirmed)
qed (simp_all add: dispatch_def messagesEffect.same)

lemma step_effect:
  "messagesEffect myUsername ev (messages (state h))
     (messages (state (step token myUsername h ev)))"
proof (cases ev)
  case (Ev_hydrationLoaded ms)
  have "messagesEffect myUsername ev (messages (state h))
          (sortBuckets (foldl bulkAddOne (messages (state h)) ms))"
    by (rule messagesEffect.merged) (simp add: Ev_hydrationLoaded)
  then show ?thesis using Ev_hydrationLoaded
    by (simp add: hydrationLoaded_def dispatch_fields foldl_hydrateOne messagesEffect.same)
next
  case Ev_hydrationFailed
  have "messagesEffect myUsername ev (messages (state h))
          (sortBuckets (foldl bulkAddOne (messages (state h)) []))"
    by (rule messagesEffect.merged) simp
  then show ?thesis using Ev_hydrationFailed
    by (simp add: hydrationFailed_def dispatch_fields messagesEffect.same)
next
  case Ev_connect
  then show ?thesis by (simp add: messages_connect messagesEffect.same)
next
  case (Ev_readyState rs)
  then show ?thesis by (simp add: messagesEffect.same)
next
  case Ev_open
  then show ?thesis by (simp add: messages_onopen messagesEffect.same)
next
  case (Ev_message d)
  show ?thesis
  proof (cases d)
    case None
    with Ev_message show ?thesis
      by (simp add: onmessage_def messagesEffect.same split: option.split)
  next
    case (Some f)
    with Ev_message show ?thesis
      by (simp add: onmessage_def messagesEffect.same onframe_effect split: option.split)
  qed
next
  case (Ev_close code)
  then show ?thesis by (simp add: messages_onclose messagesEffect.same)
next
  case (Ev_typingExpired p)
  then show ?thesis by (simp add: typingExpired_def dispatch_def Let_def messagesEffect.same)
next
  case (Ev_sendMessage receiver content uuid now)
  show ?thesis
  proof (cases "sendMessage myUsername receiver content uuid now h = h")
    case True
    with Ev_sendMessage show ?thesis by (simp add: messagesEffect.same)
  next
    case False
    then obtain me where me: "myUsername = Some me"
      by (cases myUsername) (simp_all add: sendMessage_def)
    let ?opt = "\<lparr>localId = uuid, serverId = None, chatId = dmChatId me receiver,
                 senderUsername = me, receiverUsername = receiver,
                 msgText = trim content, timestamp = now, status = Sending\<rparr>"
    from False me have eq: "messages (state (sendMessage myUsername receiver content uuid now h))
        = foldl bulkAddOne (messages (state h)) [?opt]"
      by (simp add: sendMessage_def Let_def dispatch_fields messages_MESSAGE_ADDED
          split: if_splits del: reducer.simps)
    have "messagesEffect myUsername ev (messages (state h))
            (foldl bulkAddOne (messages (state h)) [?opt])"
      by (rule messagesEffect.added) simp
    with eq Ev_sendMessage show ?thesis by simp
  qed
next
  case (Ev_markAsRead peer dbMsgs)
  show ?thesis
  proof (cases "markAsRead myUsername peer dbMsgs h = h")
    case True
    with Ev_markAsRead show ?thesis by (simp add: messagesEffect.same)
  next
    case False
    then obtain me where me: "myUsername = Some me"
      by (cases myUsername) (simp_all add: markAsRead_def)
    from False me have eq: "messages (state (markAsRead myUsername peer dbMsgs h))
        = mapBucket (dmChatId me peer)
            (\<lambda>m. if senderUsername m \<noteq> me \<and> status m \<noteq> Read then m\<lparr>status := Read\<rparr> else m)
            (messages (state h))"
      by (simp add: markAsRead_def Let_def dispatch_fields split: if_splits)
    show ?thesis using Ev_markAsRead eq messagesEffect.marked [OF me] by simp
  qed
next
  case (Ev_clearChat c)
  then show ?thesis by (simp add: clearChat_def dispatch_fields messagesEffect.cleared)
next
  case Ev_reconnect
  then show ?thesis by (simp add: reconnect_def messages_connect messagesEffect.same)
next
  case Ev_cleanup
  then show ?thesis by (simp add: cleanup_def messagesEffect.same)
qed

lemma find_localId_distinct:
  "distinct (map localId b)
     \<Longrightarrow> (find (\<lambda>x. localId x = l) b = Some m) = (m \<in> set b \<and> localId m = l)"
  by (induction b) (auto simp add: image_iff)

lemma find_localId_map:
  assumes "\<And>x. localId (f x) = localId x"
  shows "find (\<lambda>x. localId x = l) (map f b) = map_option f (find (\<lambda>x. localId x = l) b)"
  by (induction b) (simp_all add: assms)

lemma set_bucket_bulkAddOne:
  "set (bucket (bulkAddOne M x) k) = (if k = chatId x \<and> \<not> hasLocalId (localId x) (bucket M k)
      then insert x (set (bucket M k)) else set (bucket M k))"
  by (auto simp add: bucket_bulkAddOne)

lemma set_bucket_foldl_lower:
  "set (bucket M k) \<subseteq> set (bucket (foldl bulkAddOne M ms) k)"
proof (induction ms arbitrary: M)
  case Nil
  show ?case by simp
next
  case (Cons x ms)
  have "set (bucket M k) \<subseteq> set (bucket (bulkAddOne M x) k)"
    by (auto simp add: set_bucket_bulkAddOne)
  with Cons [of "bulkAddOne M x"] show ?case by auto
qed

lemma set_bucket_foldl_upper:
  "set (bucket (foldl bulkAddOne M ms) k) \<subseteq> set (bucket M k) \<union> set ms"
proof (induction ms arbitrary: M)
  case Nil
  show ?case by simp
next
  case (Cons x ms)
  have "set (bucket (bulkAddOne M x) k) \<subseteq> insert x (set (bucket M k))"
    by (auto simp add: set_bucket_bulkAddOne)
  with Cons [of "bulkAddOne M x"] show ?case by auto
qed

lemma set_bucket_sortBuckets: "set (bucket (sortBuckets M) k) = set (bucket M k)"
  by (simp add: bucket_sortBuckets)

section \<open>Status of a self-authored message\<close>

text \<open>The step of C3 on the message map.\<close>

lemma effect_keeps_unread:
  assumes eff: "messagesEffect (Some me) ev M M'"
    and d: "distinct (map localId (bucket M cid))"
    and f: "find (\<lambda>x. localId x = lid) (bucket M cid) = Some m"
    and own: "senderUsername m = me"
    and st: "status m = Sending \<or> status m = Sent"
    and nr: "\<not> readConfirmed ev cid m"
  shows "distinct (map localId (bucket M' cid))
     \<and> (case find (\<lambda>x. localId x = lid) (bucket M' cid) of
          None \<Rightarrow> ev = Ev_clearChat cid
        | Some m' \<Rightarrow> senderUsername m' = me
             \<and> (status m' = Sending \<or> status m' = Sent)
             \<and> (status m = Sent \<longrightarrow> status m' = Sent))"
  using eff
proof (cases rule: messagesEffect.cases)
  case same
  with d f own st show ?thesis by simp
next
  case (added ms)
  have d': "distinct (map localId (bucket M' cid))"
    unfolding added(1) using d by (rule distinct_foldl_bulkAddOne)
  from f d have "m \<in> set (bucket M cid)" "localId m = lid"
    by (simp_all add: find_localId_distinct)
  then have "m \<in> set (bucket M' cid)"
    unfolding added(1) using set_bucket_foldl_lower by blast
  with d' \<open>localId m = lid\<close> have "find (\<lambda>x. localId x = lid) (bucket M' cid) = Some m"
    by (simp add: find_localId_distinct)
  with d' own st show ?thesis by simp
next
  case (merged ms)
  have d': "distinct (map localId (bucket M' cid))"
    unfolding merged(1) using d by (simp add: distinct_sortBuckets distinct_foldl_bulkAddOne)
  from f d have "m \<in> set (bucket M cid)" "localId m = lid"
    by (simp_all add: find_localId_distinct)
  then have "m \<in> set (bucket M' cid)"
    unfolding merged(1) set_bucket_sortBuckets using set_bucket_foldl_lower by blast
  with d' \<open>localId m = lid\<close> have "find (\<lambda>x. localId x = lid) (bucket M' cid) = Some m"
    by (simp add: find_localId_distinct)
  with d' own st show ?thesis by simp
next
  case (acked c l ts sid)
  let ?f = "\<lambda>m. if localId m = l
                 then m\<lparr>serverId := Some sid, status := Sent, timestamp := ts\<rparr> else m"
  have lf: "\<And>x. localId (?f x) = localId x" by simp
  have d': "distinct (map localId (bucket M' cid))"
    unfolding acked(1) using d by (simp only: distinct_mapBucket [of ?f, OF lf])
  have "find (\<lambda>x. localId x = lid) (bucket M' cid) = Some (if c = cid then ?f m else m)"
    unfolding acked(1) bucket_mapBucket using f
    by (simp add: find_localId_map [of ?f, OF lf])
  with d' own st show ?thesis by auto
next
  case (marked me' c)
  then have me': "me' = me" by simp
  let ?f = "\<lambda>m. if senderUsername m \<noteq> me \<and> status m \<noteq> Read then m\<lparr>status := Read\<rparr> else m"
  have lf: "\<And>x. localId (?f x) = localId x" by simp
  have d': "distinct (map localId (bucket M' cid))"
    unfolding marked(1) me' using d by (simp only: distinct_mapBucket [of ?f, OF lf])
  have "find (\<lambda>x. localId x = lid) (bucket M' cid) = Some (if c = cid then ?f m else m)"
    unfolding marked(1) me' bucket_mapBucket using f
    by (simp add: find_localId_map [of ?f, OF lf])
  with d' own st show ?thesis by auto
next
  case (confirmed c ids reader)
  let ?f = "\<lambda>m. if matchesIds ids m then m\<lparr>status := Read\<rparr> else m"
  have lf: "\<And>x. localId (?f x) = localId x" by simp
  from nr confirmed(2) have no: "\<not> (c = cid \<and> matchesIds ids m)"
    by (simp add: readConfirmed_def)
  have d': "distinct (map localId (bucket M' cid))"
    unfolding confirmed(1) using d by (simp only: distinct_mapBucket [of ?f, OF lf])
  have "find (\<lambda>x. localId x = lid) (bucket M' cid) = Some (if c = cid then ?f m else m)"
    unfolding confirmed(1) bucket_mapBucket using f
    by (simp add: find_localId_map [of ?f, OF lf])
  with d' own st no show ?thesis by auto
next
  case (cleared c)
  with d f own st show ?thesis by (auto simp add: bucket_clear)
qed

text \<open>
  Claim C3, as amended. Let a message of user \<open>me\<close>, found under its \<open>localId\<close> in a bucket
  that holds each \<open>localId\<close> once, be at \<open>Sending\<close> or \<open>Sent\<close>. Every event of the hook
  other than a read confirmation matching it leaves the bucket with each \<open>localId\<close>
  once and either removes the message, which only clearing that conversation does, or
  leaves it authored by \<open>me\<close> and at \<open>Sending\<close> or \<open>Sent\<close>, at \<open>Sent\<close> if it was at
  \<open>Sent\<close>. So the premises hold again after the event, and along any sequence of such
  events the status moves from \<open>Sending\<close> to \<open>Sent\<close> at most and reaches neither \<open>Read\<close>
  nor \<open>Failed\<close>.
\<close>

theorem C3_status_progress:
  assumes "myUsername = Some me"
    and "distinct (map localId (bucket (messages (state h)) cid))"
    and "findMsg (state h) cid lid = Some m"
    and "senderUsername m = me"
    and "status m = Sending \<or> status m = Sent"
    and "\<not> readConfirmed ev cid m"
  shows "distinct (map localId (bucket (messages (state (step token myUsername h ev))) cid))
     \<and> (case findMsg (state (step token myUsername h ev)) cid lid of
          None \<Rightarrow> ev = Ev_clearChat cid
        | Some m' \<Rightarrow> senderUsername m' = me
             \<and> (status m' = Sending \<or> status m' = Sent)
             \<and> (status m = Sent \<longrightarrow> status m' = Sent))"
  unfolding findMsg_def
  by (rule effect_keeps_unread [OF _ assms(2) assms(3) [unfolded findMsg_def] assms(4-6)])
     (use step_effect [of myUsername ev h token] assms(1) in simp)

theorem C3_status_progress_witness:
  "findMsg (state (sendMessage (Some ''alice'') ''bob'' (ascii ''  hi '') ''u-1'' 1000 openHook))
       ''dm:alice:bob'' ''u-1''
     = Some (chatMsg ''u-1'' None ''dm:alice:bob'' ''alice'' ''bob'' ''hi'' 1000 Sending)
   \<and> findMsg (state (step (Some ''jwt'') (Some ''alice'')
          (sendMessage (Some ''alice'') ''bob'' (ascii ''  hi '') ''u-1'' 1000 openHook)
          (Ev_message (Some (Message_sent (Some ''u-1'')
             (wire ''srv1'' ''dm:alice:bob'' ''alice'' ''bob'' ''hi'' 2000))))))
       ''dm:alice:bob'' ''u-1''
     = Some (chatMsg ''u-1'' (Some ''srv1'') ''dm:alice:bob'' ''alice'' ''bob'' ''hi'' 2000 Sent)"
proof -
  let ?h = "sendMessage (Some ''alice'') ''bob'' (ascii ''  hi '') ''u-1'' 1000 openHook"
  let ?m = "chatMsg ''u-1'' None ''dm:alice:bob'' ''alice'' ''bob'' ''hi'' 1000 Sending"
  let ?ev = "Ev_message (Some (Message_sent (Some ''u-1'')
             (wire ''srv1'' ''dm:alice:bob'' ''alice'' ''bob'' ''hi'' 2000)))"
  have b: "bucket (messages (state ?h)) ''dm:alice:bob'' = [?m]"
    by (simp add: openHook_eval initialHook_def initialState_def sendMessage_def dispatch_def
        trim_hi dm_alice_bob bucket_def hasLocalId_def chatMsg_def Let_def)
  have d: "distinct (map localId (bucket (messages (state ?h)) ''dm:alice:bob''))"
    by (simp add: b)
  have f: "findMsg (state ?h) ''dm:alice:bob'' ''u-1'' = Some ?m"
    by (simp add: findMsg_def b chatMsg_def)
  have own: "senderUsername ?m = ''alice''" and st: "status ?m = Sending \<or> status ?m = Sent"
    by (simp_all add: chatMsg_def)
  have nr: "\<not> readConfirmed ?ev ''dm:alice:bob'' ?m"
    by (simp add: readConfirmed_def)
  note inst = C3_status_progress [OF refl d f own st nr, of "Some ''jwt''"]
  have after: "findMsg (state (step (Some ''jwt'') (Some ''alice'') ?h ?ev))
       ''dm:alice:bob'' ''u-1''
     = Some (chatMsg ''u-1'' (Some ''srv1'') ''dm:alice:bob'' ''alice'' ''bob'' ''hi'' 2000 Sent)"
    using inst
    by (simp add: findMsg_def onmessage_def dispatch_def sendMessage_def openHook_eval
        initialHook_def initialState_def trim_hi dm_alice_bob bucket_def hasLocalId_def
        mapBucket_def wire_def chatMsg_def Let_def)
  from f after show ?thesis by simp
qed

text \<open>
  Claim C3 as stated fails: \<^verbatim>\<open>MESSAGE_UPDATED\<close> sets \<open>Sent\<close> whatever the status was. A
  message of alice's that hydration loads at \<open>Read\<close> goes back to \<open>Sent\<close> when a
  \<^verbatim>\<open>message_sent\<close> frame for its \<open>localId\<close> arrives; no read confirmation is involved.
\<close>

theorem C3_acknowledgment_regresses_read:
  "senderUsername (chatMsg ''m1'' (Some ''srv1'') ''dm:alice:bob'' ''alice'' ''bob'' ''hi'' 100 Read)
     = ''alice''
   \<and> map status (bucket (messages (state (run (Some ''jwt'') (Some ''alice'') openHook
        [Ev_hydrationLoaded
           [chatMsg ''m1'' (Some ''srv1'') ''dm:alice:bob'' ''alice'' ''bob'' ''hi'' 100 Read]])))
        ''dm:alice:bob'')
     = [Read]
   \<and> map status (bucket (messages (state (run (Some ''jwt'') (Some ''alice'') openHook
        [Ev_hydrationLoaded
           [chatMsg ''m1'' (Some ''srv1'') ''dm:alice:bob'' ''alice'' ''bob'' ''hi'' 100 Read],
         Ev_message (Some (Message_sent (Some ''m1'')
           (wire ''srv1'' ''dm:alice:bob'' ''alice'' ''bob'' ''hi'' 100)))])))
        ''dm:alice:bob'')
     = [Sent]"
  by (simp add: run_def openHook_eval initialHook_def initialState_def truthy_def
      hydrationLoaded_def onmessage_def dispatch_def hydrateOne_def sortBuckets_def
      mapBucket_def bucket_def wire_def chatMsg_def Let_def)

section \<open>The status failed\<close>

text \<open>The step of C8 on the message map.\<close>

lemma effect_no_failed:
  assumes eff: "messagesEffect myUsername ev M M'"
    and clean: "hydrationClean ev"
    and nf: "\<And>k. \<forall>x\<in>set (bucket M k). status x \<noteq> Failed"
  shows "\<forall>x\<in>set (bucket M' k). status x \<noteq> Failed"
  using eff
proof (cases rule: messagesEffect.cases)
  case same
  with nf show ?thesis by simp
next
  case (added ms)
  then have "\<forall>x\<in>set ms. status x \<noteq> Failed" by auto
  with nf [of k] set_bucket_foldl_upper [of M ms k] show ?thesis
    unfolding added(1) by blast
next
  case (merged ms)
  from merged(2) clean have "\<forall>x\<in>set ms. status x \<noteq> Failed"
    by (auto simp add: hydrationClean_def list_all_iff)
  with nf [of k] set_bucket_foldl_upper [of M ms k] show ?thesis
    unfolding merged(1) set_bucket_sortBuckets by blast
next
  case (acked c l ts sid)
  with nf [of k] show ?thesis by (auto simp add: bucket_mapBucket)
next
  case (marked me c)
  with nf [of k] show ?thesis by (auto simp add: bucket_mapBucket)
next
  case (confirmed c ids reader)
  with nf [of k] show ?thesis by (auto simp add: bucket_mapBucket)
next
  case (cleared c)
  with nf [of k] show ?thesis by (auto simp add: bucket_clear)
qed

lemma run_no_failed:
  assumes "list_all hydrationClean evs"
  shows "\<forall>x\<in>set (bucket (messages (state (run token myUsername initialHook evs))) k).
           status x \<noteq> Failed"
  using assms
proof (induction evs arbitrary: k rule: rev_induct)
  case Nil
  show ?case by (simp add: run_def initialHook_def initialState_def bucket_def)
next
  case (snoc ev evs)
  then have clean: "hydrationClean ev" and rest: "list_all hydrationClean evs" by simp_all
  have step: "run token myUsername initialHook (evs @ [ev])
                = step token myUsername (run token myUsername initialHook evs) ev"
    by (simp add: run_def)
  show ?case
    unfolding step
    by (rule effect_no_failed [OF step_effect clean]) (rule snoc.IH [OF rest])
qed

lemma showInt_404: "showInt 404 = ''404''"
  by code_simp

text \<open>
  Claim C8, as amended. No handler of the hook sets the status \<open>Failed\<close>: starting from
  the initial hook, after any sequence of events whose hydration payloads hold no
  message at \<open>Failed\<close>, no message of any conversation is at \<open>Failed\<close> (so \<open>Failed\<close> is
  entered from no status). A failure the server reports, an \<^verbatim>\<open>error\<close> frame, is surfaced
  as the error of the snapshot and leaves every message as it was.
\<close>

theorem C8_failed_never_set:
  assumes "list_all hydrationClean evs"
  shows "list_all (\<lambda>m. status m \<noteq> Failed)
           (bucket (messages (state (run token myUsername initialHook evs))) cid)
     \<and> (\<forall>h me message code. isMounted h \<longrightarrow>
           messages (state (onmessage me (Some (Error_frame message code)) h))
             = messages (state h)
         \<and> error (state (onmessage me (Some (Error_frame message code)) h))
             = Some (''['' @ showInt code @ ''] '' @ message))"
proof -
  have "list_all (\<lambda>m. status m \<noteq> Failed)
           (bucket (messages (state (run token myUsername initialHook evs))) cid)"
    using run_no_failed [OF assms] by (simp add: list_all_iff)
  moreover have "\<forall>h me message code. isMounted h \<longrightarrow>
           messages (state (onmessage me (Some (Error_frame message code)) h))
             = messages (state h)
         \<and> error (state (onmessage me (Some (Error_frame message code)) h))
             = Some (''['' @ showInt code @ ''] '' @ message)"
    by (simp add: onmessage_def dispatch_def)
  ultimately show ?thesis by blast
qed

theorem C8_failed_never_set_witness:
  "list_all hydrationClean
     [Ev_connect, Ev_readyState WS_OPEN, Ev_open,
      Ev_hydrationLoaded [chatMsg ''m0'' None ''dm:alice:bob'' ''bob'' ''alice'' ''yo'' 5 Delivered],
      Ev_sendMessage ''bob'' (ascii ''  hi '') ''u-1'' 1000,
      Ev_message (Some (Error_frame ''User offline'' 404))]
   \<and> list_all (\<lambda>m. status m \<noteq> Failed)
       (bucket (messages (state (run (Some ''jwt'') (Some ''alice'') initialHook
          [Ev_connect, Ev_readyState WS_OPEN, Ev_open,
           Ev_hydrationLoaded [chatMsg ''m0'' None ''dm:alice:bob'' ''bob'' ''alice'' ''yo'' 5 Delivered],
           Ev_sendMessage ''bob'' (ascii ''  hi '') ''u-1'' 1000,
           Ev_message (Some (Error_frame ''User offline'' 404))])))
        ''dm:alice:bob'')"
proof -
  have clean: "list_all hydrationClean
     [Ev_connect, Ev_readyState WS_OPEN, Ev_open,
      Ev_hydrationLoaded [chatMsg ''m0'' None ''dm:alice:bob'' ''bob'' ''alice'' ''yo'' 5 Delivered],
      Ev_sendMessage ''bob'' (ascii ''  hi '') ''u-1'' 1000,
      Ev_message (Some (Error_frame ''User offline'' 404))]"
    by (simp add: hydrationClean_def chatMsg_def)
  from C8_failed_never_set [OF clean, of "Some ''jwt''" "Some ''alice''" "''dm:alice:bob''"] clean
  show ?thesis by blast
qed

text \<open>
  Claim C8 as stated fails in its first half: alice sends a message, the server
  answers with an \<^verbatim>\<open>error\<close> frame, and the failure is the error of the snapshot while the
  message stays at \<open>Sending\<close>.
\<close>

theorem C8_send_failure_is_global_error:
  "map status (bucket (messages (state (run (Some ''jwt'') (Some ''alice'') openHook
        [Ev_sendMessage ''bob'' (ascii ''  hi '') ''u-1'' 1000,
         Ev_message (Some (Error_frame ''User offline'' 404))])))
        ''dm:alice:bob'')
     = [Sending]
   \<and> error (state (run (Some ''jwt'') (Some ''alice'') openHook
        [Ev_sendMessage ''bob'' (ascii ''  hi '') ''u-1'' 1000,
         Ev_message (Some (Error_frame ''User offline'' 404))]))
     = Some ''[404] User offline''"
  by (simp add: run_def openHook_eval initialHook_def initialState_def sendMessage_def
      onmessage_def dispatch_def trim_hi dm_alice_bob bucket_def hasLocalId_def showInt_404
      Let_def)

end
